theory Spec2Isabelle
  imports Main
begin

unbundle bit_operations_syntax

section \<open>ASDControl: brightness control of Apple displays over hiddev\<close>

text \<open>
  A shallow embedding of \<^verbatim>\<open>asdcontrol.cpp\<close>. Two revisions of the program are in the
  repository: the older one (no percentages) and the newer one (with percentages). Unless
  a name carries the suffix \<open>_old\<close>, a definition embeds the newer revision.

  Conventions of the embedding:
  \<^item> a \<^verbatim>\<open>const char*\<close> is a \<open>string option\<close>: \<open>None\<close> is the null pointer, and
    \<open>Some s\<close> holds the characters before the terminating NUL, so that reaching the end of
    the list is reading the NUL;
  \<^item> a C++ \<^verbatim>\<open>int\<close> is an \<open>int\<close> together with the range check \<open>in_int\<close>: signed
    overflow, an unrepresentable \<^verbatim>\<open>atoi\<close> result and the dereference of a null pointer are
    undefined behaviour in C++, and the model ends such a run in \<open>Undefined\<close>;
  \<^item> the kernel and the devices are a parameter, the \<open>world\<close>: what \<^verbatim>\<open>open\<close> and
    each \<^verbatim>\<open>ioctl\<close> answer for a path;
  \<^item> a run yields its trace (opens, closes, report-level ioctls and console lines, in
    order) and the way the process ended.
\<close>

subsection \<open>Characters and tokens\<close>

definition is_digit :: "char \<Rightarrow> bool" where
  \<comment> \<open>\<^verbatim>\<open>(c >= '0') && (c <= '9')\<close>\<close>
  "is_digit c \<longleftrightarrow> (48::nat) \<le> of_char c \<and> of_char c \<le> (57::nat)"

text \<open>The loop of the newer \<^verbatim>\<open>number\<close>, entered after \<^verbatim>\<open>++str\<close>.\<close>

fun number_loop :: "bool \<Rightarrow> string \<Rightarrow> bool" where
  "number_loop hasPercent [] = True"
| "number_loop hasPercent (c # cs) =
     (if c = CHR ''%'' \<and> \<not> hasPercent then number_loop True cs
      else if hasPercent then False
      else if \<not> is_digit c then False
      else number_loop hasPercent cs)"

fun number :: "string option \<Rightarrow> bool" where
  "number None = False"
| "number (Some []) = False"
| "number (Some (c # cs)) =
     (if \<not> (is_digit c \<or> c = CHR ''+'' \<or> c = CHR ''-'') then False
      else number_loop False cs)"

text \<open>
  The older \<^verbatim>\<open>number\<close>: the same test of the first character, but no \<^verbatim>\<open>++str\<close>
  before the loop, which therefore starts at the first character again.
\<close>

fun number_old_loop :: "string \<Rightarrow> bool" where
  "number_old_loop [] = True"
| "number_old_loop (c # cs) = (if \<not> is_digit c then False else number_old_loop cs)"

fun number_old :: "string option \<Rightarrow> bool" where
  "number_old None = False"
| "number_old (Some []) = False"
| "number_old (Some (c # cs)) =
     (if \<not> (is_digit c \<or> c = CHR ''+'' \<or> c = CHR ''-'') then False
      else number_old_loop (c # cs))"

fun isPercent_loop :: "bool \<Rightarrow> string \<Rightarrow> bool" where
  "isPercent_loop hasPercent [] = hasPercent"
| "isPercent_loop hasPercent (c # cs) =
     (if c = CHR ''%'' \<and> \<not> hasPercent then isPercent_loop True cs
      else if hasPercent then False
      else isPercent_loop hasPercent cs)"

fun isPercent :: "string option \<Rightarrow> bool" where
  "isPercent None = False"
| "isPercent (Some s) = isPercent_loop False s"

subsection \<open>The C library's \<^verbatim>\<open>atoi\<close>\<close>

text \<open>
  \<^verbatim>\<open>atoi\<close> belongs to the C library, not to the program. It is modelled after the C
  standard: white space is skipped, one optional sign is read, then the longest run of
  decimal digits; whatever follows is ignored. \<open>atoi_value\<close> is the mathematical value;
  the standard leaves the behaviour undefined when it is not representable as an
  \<^verbatim>\<open>int\<close>.
\<close>

definition is_space :: "char \<Rightarrow> bool" where
  "is_space c \<longleftrightarrow> of_char c \<in> {32::nat, 9, 10, 11, 12, 13}"

fun digits_value :: "int \<Rightarrow> string \<Rightarrow> int" where
  "digits_value acc [] = acc"
| "digits_value acc (c # cs) =
     (if is_digit c then digits_value (acc * 10 + (int (of_char c) - 48)) cs else acc)"

definition atoi_value :: "string \<Rightarrow> int" where
  "atoi_value s =
     (case dropWhile is_space s of
        [] \<Rightarrow> 0
      | c # cs \<Rightarrow>
          if c = CHR ''-'' then - digits_value 0 cs
          else if c = CHR ''+'' then digits_value 0 cs
          else digits_value 0 (c # cs))"

datatype undefined_behaviour = NullPointerDereference | IntegerOverflow

definition INT_MIN :: int where "INT_MIN = - 2147483648"
definition INT_MAX :: int where "INT_MAX = 2147483647"

definition in_int :: "int \<Rightarrow> bool" where
  "in_int v \<longleftrightarrow> INT_MIN \<le> v \<and> v \<le> INT_MAX"

definition checked :: "int \<Rightarrow> undefined_behaviour + int" where
  \<comment> \<open>the result of an \<^verbatim>\<open>int\<close> computation whose mathematical value is \<open>v\<close>\<close>
  "checked v = (if in_int v then Inr v else Inl IntegerOverflow)"

definition atoi :: "string \<Rightarrow> undefined_behaviour + int" where
  "atoi s = checked (atoi_value s)"

subsection \<open>Integer arithmetic of C++\<close>

definition c_div :: "int \<Rightarrow> int \<Rightarrow> int" where
  \<comment> \<open>\<^verbatim>\<open>/\<close> on \<^verbatim>\<open>int\<close>: the quotient is truncated towards zero\<close>
  "c_div a b = (if (a < 0) = (b < 0) then \<bar>a\<bar> div \<bar>b\<bar> else - (\<bar>a\<bar> div \<bar>b\<bar>))"

subsection \<open>The device database\<close>

datatype usage_mode = USAGE_MODE_GET | USAGE_MODE_SET | USAGE_MODE_DETECT | USAGE_MODE_SETREL

definition BRIGHTNESS_CONTROL :: int where "BRIGHTNESS_CONTROL = 1"
definition USAGE_CODE :: int where "USAGE_CODE = 0x820001"
definition APPLE :: int where "APPLE = 0x05ac"
definition STUDIO_DISPLAY_27 :: int where "STUDIO_DISPLAY_27 = 0x1114"

record DeviceId =
  product :: int
  vendor :: int
  description :: string
  brightness_min :: int
  brightness_max :: int

text \<open>
  \<^verbatim>\<open>supportedDevices\<close> is a \<^verbatim>\<open>std::set\<close> ordered by vendor, then product: two entries
  with the same pair are the same key. It is modelled as the list of its entries, and
  \<^verbatim>\<open>find\<close> as the search for the first entry with the key.
\<close>

type_synonym SupportedDevices = "DeviceId list"

definition init_device_database :: SupportedDevices where
  "init_device_database =
     [\<lparr>product = STUDIO_DISPLAY_27, vendor = APPLE,
       description = ''Apple Studio Display (2022, 27'' @ [CHR 0x22] @ '')'',
       brightness_min = 400, brightness_max = 60000\<rparr>]"

fun find_device :: "SupportedDevices \<Rightarrow> int \<Rightarrow> int \<Rightarrow> DeviceId option" where
  "find_device [] v p = None"
| "find_device (e # es) v p =
     (if vendor e = v \<and> product e = p then Some e else find_device es v p)"

subsection \<open>The world: what the kernel answers\<close>

record hiddev_devinfo =
  devinfo_vendor :: int
  devinfo_product :: int
  num_applications :: nat

text \<open>
  One record per device node that can be opened. Each field is the answer to one
  \<^verbatim>\<open>ioctl\<close>: a \<open>bool\<close> tells whether the call succeeds (a result \<open>\<ge> 0\<close>), and
  \<open>HIDIOCGUSAGE\<close> answers the value it stores in \<^verbatim>\<open>usage_ref.value\<close>, or fails. The
  program reads the usage a second time after a relative change; that second answer has
  fields of its own.
\<close>

record hid_device =
  HIDIOCGDEVINFO :: hiddev_devinfo
  HIDIOCAPPLICATION :: "nat \<Rightarrow> int"
  HIDIOCINITREPORT_ok :: bool
  HIDIOCSUSAGE_ok :: bool
  HIDIOCSREPORT_ok :: bool
  HIDIOCGUSAGE_value :: "int option"
  HIDIOCGREPORT_ok :: bool
  HIDIOCGUSAGE_value2 :: "int option"
  HIDIOCGREPORT_ok2 :: bool

text \<open>
  \<open>world p\<close> is the outcome of \<^verbatim>\<open>open\<close> on path \<open>p\<close> with the open mode of the run
  (the program computes one open mode before its loop): \<open>None\<close> when it fails.
\<close>

type_synonym world = "string \<Rightarrow> hid_device option"

definition is_supported :: "SupportedDevices \<Rightarrow> hiddev_devinfo \<Rightarrow> DeviceId option" where
  "is_supported supportedDevices device_info =
     (let product = devinfo_product device_info AND 0xFFFF;
          vendor = devinfo_vendor device_info AND 0xFFFF
      in find_device supportedDevices vendor product)"

function is_usb_monitor_loop :: "hid_device \<Rightarrow> nat \<Rightarrow> bool" where
  "is_usb_monitor_loop d appl_num =
     (if appl_num < num_applications (HIDIOCGDEVINFO d) then
        (let application = HIDIOCAPPLICATION d appl_num in
         if (drop_bit 16 application) AND 0xFF = 0x80 then True
         else is_usb_monitor_loop d (Suc appl_num))
      else False)"
  by pat_completeness auto
termination
  by (relation "measure (\<lambda>(d, appl_num). num_applications (HIDIOCGDEVINFO d) - appl_num)") auto

declare is_usb_monitor_loop.simps [simp del]

definition is_usb_monitor :: "hid_device \<Rightarrow> bool" where
  "is_usb_monitor d = is_usb_monitor_loop d 0"

subsection \<open>Traces and outcomes\<close>

datatype open_flag = O_RDONLY | O_RDWR

datatype ioctl_request =
    HIDIOCINITREPORT
  | HIDIOCSUSAGE int
  | HIDIOCSREPORT
  | HIDIOCGUSAGE
  | HIDIOCGREPORT

text \<open>
  The trace of a run. \<open>Ioctl p r ok\<close> is recorded when the request \<open>r\<close> is issued on
  the handle of path \<open>p\<close>; \<open>ok\<close> tells whether the call succeeded (its result was not
  negative). \<open>HIDIOCSUSAGE x\<close> carries the value of \<^verbatim>\<open>usage_ref.value\<close> handed to the
  kernel. The probing requests (driver version, device info, applications) change nothing
  and are not recorded.
\<close>

datatype event =
    Open string open_flag
  | Close string
  | Ioctl string ioctl_request bool
  | Help
  | Notice
  | DriverVersion
  | Detected string bool
  | Brightness "string option" int
  | Perror string
  | Cerr string

datatype outcome = Exit int | Undefined undefined_behaviour

record options =
  brief :: bool
  silent :: bool
  force :: bool

record main_vars =
  mode :: usage_mode
  brightness :: int
  amount :: int
  percent :: bool
  files :: "string list"
  first_device :: bool

subsection \<open>\<^verbatim>\<open>main\<close>: the positional parameters\<close>

text \<open>
  The model of \<^verbatim>\<open>main\<close> starts after the \<^verbatim>\<open>getopt_long\<close> loop, which leaves the
  options and the mode (\<open>USAGE_MODE_DETECT\<close> after \<^verbatim>\<open>--detect\<close>, \<open>USAGE_MODE_GET\<close>
  otherwise), and the parameters \<^verbatim>\<open>argv[optind..argc-1]\<close>.
\<close>

definition first_char :: "string \<Rightarrow> char" where
  \<comment> \<open>\<^verbatim>\<open>argv[param][0]\<close>; the NUL for an empty string\<close>
  "first_char s = (case s of [] \<Rightarrow> CHR 0x00 | c # _ \<Rightarrow> c)"

fun parse_params :: "main_vars \<Rightarrow> string list \<Rightarrow> undefined_behaviour + main_vars" where
  "parse_params v [] = Inr v"
| "parse_params v (arg # args) =
     (if mode v \<noteq> USAGE_MODE_DETECT \<and> number (Some arg) then
        (if first_char arg = CHR ''+'' \<or> first_char arg = CHR ''-'' then
           (case atoi arg of
              Inl u \<Rightarrow> Inl u
            | Inr a \<Rightarrow>
                parse_params
                  (v\<lparr>mode := USAGE_MODE_SETREL, amount := a, percent := isPercent (Some arg)\<rparr>)
                  args)
         else
           (case atoi arg of
              Inl u \<Rightarrow> Inl u
            | Inr b \<Rightarrow>
                parse_params
                  (v\<lparr>mode := USAGE_MODE_SET, brightness := b, percent := isPercent (Some arg)\<rparr>)
                  args))
      else parse_params (v\<lparr>files := files v @ [arg]\<rparr>) args)"

definition initial_vars :: "usage_mode \<Rightarrow> main_vars" where
  "initial_vars mode0 =
     \<lparr>mode = mode0, brightness = 0, amount = 0, percent = False, files = [],
      first_device = True\<rparr>"

definition open_mode :: "main_vars \<Rightarrow> open_flag" where
  "open_mode v =
     (if mode v = USAGE_MODE_SET \<or> mode v = USAGE_MODE_SETREL then O_RDWR else O_RDONLY)"

subsection \<open>\<^verbatim>\<open>main\<close>: one device\<close>

text \<open>The block \<^verbatim>\<open>if (percent) { ... }\<close>.\<close>

definition scale_percent :: "DeviceId option \<Rightarrow> main_vars \<Rightarrow> undefined_behaviour + main_vars" where
  "scale_percent selected_device v =
     (if percent v then
        (case selected_device of
           None \<Rightarrow> Inl NullPointerDereference
         | Some sd \<Rightarrow>
             (case checked (brightness_max sd - brightness_min sd) of
                Inl u \<Rightarrow> Inl u
              | Inr span \<Rightarrow>
                  if amount v = 0 then
                    (case checked (min (max (brightness v) 0) 100 * span) of
                       Inl u \<Rightarrow> Inl u
                     | Inr scaled \<Rightarrow>
                         (case checked (c_div scaled 100 + brightness_min sd) of
                            Inl u \<Rightarrow> Inl u
                          | Inr b \<Rightarrow> Inr (v\<lparr>brightness := b\<rparr>)))
                  else
                    (case checked (amount v * span) of
                       Inl u \<Rightarrow> Inl u
                     | Inr scaled \<Rightarrow> Inr (v\<lparr>amount := c_div scaled 100\<rparr>))))
      else Inr v)"

text \<open>
  From the setup of \<^verbatim>\<open>usage_ref\<close> to the printed brightness: the set and the get
  transactions. \<open>Inl\<close> is a call of \<^verbatim>\<open>exit\<close> (or undefined behaviour), \<open>Inr\<close> the
  variables when control reaches \<^verbatim>\<open>close ( fd )\<close>.
\<close>

definition report_transaction ::
  "options \<Rightarrow> DeviceId option \<Rightarrow> hid_device \<Rightarrow> main_vars \<Rightarrow> string \<Rightarrow>
     event list \<times> (outcome + main_vars)" where
  "report_transaction opts selected_device d v p =
     (if mode v = USAGE_MODE_SET then
        (if \<not> HIDIOCSUSAGE_ok d then
           ([Ioctl p (HIDIOCSUSAGE (brightness v)) False, Perror ''Cannot set brightness''],
            Inl (Exit 2))
         else if \<not> HIDIOCSREPORT_ok d then
           ([Ioctl p (HIDIOCSUSAGE (brightness v)) True, Ioctl p HIDIOCSREPORT False,
             Perror ''Cannot read brightness''],
            Inl (Exit 3))
         else
           ([Ioctl p (HIDIOCSUSAGE (brightness v)) True, Ioctl p HIDIOCSREPORT True], Inr v))
      else
        (case HIDIOCGUSAGE_value d of
           None \<Rightarrow>
             ([Ioctl p HIDIOCGUSAGE False,
               Perror ''Cannot ask monitor for brightness control''],
              Inl (Exit 2))
         | Some value1 \<Rightarrow>
             if \<not> HIDIOCGREPORT_ok d then
               ([Ioctl p HIDIOCGUSAGE True, Ioctl p HIDIOCGREPORT False,
                 Perror ''Cannot read brightness''],
                Inl (Exit 3))
             else if mode v = USAGE_MODE_SETREL then
               (case checked (value1 + amount v) of
                  Inl u \<Rightarrow>
                    ([Ioctl p HIDIOCGUSAGE True, Ioctl p HIDIOCGREPORT True],
                     Inl (Undefined u))
                | Inr target \<Rightarrow>
                    (case selected_device of
                       None \<Rightarrow>
                         ([Ioctl p HIDIOCGUSAGE True, Ioctl p HIDIOCGREPORT True],
                          Inl (Undefined NullPointerDereference))
                     | Some sd \<Rightarrow>
                         (let b = min (brightness_max sd) (max (brightness_min sd) target);
                              got = [Ioctl p HIDIOCGUSAGE True, Ioctl p HIDIOCGREPORT True]
                          in
                          if \<not> HIDIOCSUSAGE_ok d then
                            (got @ [Ioctl p (HIDIOCSUSAGE b) False,
                                    Perror ''Cannot set brightness''],
                             Inl (Exit 2))
                          else if \<not> HIDIOCSREPORT_ok d then
                            (got @ [Ioctl p (HIDIOCSUSAGE b) True, Ioctl p HIDIOCSREPORT False,
                                    Perror ''Cannot read brightness''],
                             Inl (Exit 3))
                          else
                            (case HIDIOCGUSAGE_value2 d of
                               None \<Rightarrow>
                                 (got @ [Ioctl p (HIDIOCSUSAGE b) True,
                                         Ioctl p HIDIOCSREPORT True,
                                         Ioctl p HIDIOCGUSAGE False,
                                         Perror ''Cannot ask monitor for brightness control''],
                                  Inl (Exit 2))
                             | Some value2 \<Rightarrow>
                                 if \<not> HIDIOCGREPORT_ok2 d then
                                   (got @ [Ioctl p (HIDIOCSUSAGE b) True,
                                           Ioctl p HIDIOCSREPORT True,
                                           Ioctl p HIDIOCGUSAGE True,
                                           Ioctl p HIDIOCGREPORT False,
                                           Perror ''Cannot read brightness''],
                                    Inl (Exit 3))
                                 else
                                   (got @ [Ioctl p (HIDIOCSUSAGE b) True,
                                           Ioctl p HIDIOCSREPORT True,
                                           Ioctl p HIDIOCGUSAGE True,
                                           Ioctl p HIDIOCGREPORT True,
                                           Brightness (if brief opts then None else Some p)
                                             value2],
                                    Inr (v\<lparr>brightness := b\<rparr>))))))
             else
               ([Ioctl p HIDIOCGUSAGE True, Ioctl p HIDIOCGREPORT True,
                 Brightness (if brief opts then None else Some p) value1],
                Inr v)))"

text \<open>The body of the loop over \<^verbatim>\<open>files\<close>, for the path \<open>p\<close>.\<close>

definition process_device ::
  "options \<Rightarrow> SupportedDevices \<Rightarrow> world \<Rightarrow> main_vars \<Rightarrow> string \<Rightarrow>
     event list \<times> (outcome + main_vars)" where
  "process_device opts supportedDevices w v p =
     (case w p of
        None \<Rightarrow> ([Perror p], Inr v)
      | Some d \<Rightarrow>
          (let opened =
                 Open p (open_mode v) #
                 (if \<not> silent opts \<and> first_device v then [DriverVersion] else []);
               device_info = HIDIOCGDEVINFO d
           in
           if mode v = USAGE_MODE_DETECT then
             (opened @
              (if is_usb_monitor d
               then [Detected p (is_supported supportedDevices device_info \<noteq> None)]
               else []),
              Inr v)
           else
             (let selected_device = is_supported supportedDevices device_info;
                  looked_up =
                    opened @
                    (if selected_device = None then [Cerr ''Unsupported device:''] else [])
              in
              if selected_device = None \<and> \<not> force opts then (looked_up, Inl (Exit 2))
              else if \<not> is_usb_monitor d then
                (looked_up @ [Cerr ''This device is not a USB monitor!''], Inr v)
              else if \<not> HIDIOCINITREPORT_ok d then
                (looked_up @
                 [Ioctl p HIDIOCINITREPORT False,
                  Cerr ''FATAL: Failed to initialize internal report structures''],
                 Inl (Exit 1))
              else
                (case scale_percent selected_device v of
                   Inl u \<Rightarrow> (looked_up @ [Ioctl p HIDIOCINITREPORT True], Inl (Undefined u))
                 | Inr v1 \<Rightarrow>
                     (case report_transaction opts selected_device d v1 p of
                        (evs, Inl out) \<Rightarrow>
                          (looked_up @ Ioctl p HIDIOCINITREPORT True # evs, Inl out)
                      | (evs, Inr v2) \<Rightarrow>
                          (looked_up @ Ioctl p HIDIOCINITREPORT True # evs @ [Close p],
                           Inr (v2\<lparr>first_device := False\<rparr>)))))))"

subsection \<open>\<^verbatim>\<open>main\<close>: the whole run\<close>

fun device_loop ::
  "options \<Rightarrow> SupportedDevices \<Rightarrow> world \<Rightarrow> main_vars \<Rightarrow> string list \<Rightarrow>
     event list \<times> outcome" where
  "device_loop opts supportedDevices w v [] = ([], Exit 0)"
| "device_loop opts supportedDevices w v (p # ps) =
     (case process_device opts supportedDevices w v p of
        (evs, Inl out) \<Rightarrow> (evs, out)
      | (evs, Inr v') \<Rightarrow>
          (case device_loop opts supportedDevices w v' ps of
             (evs', out) \<Rightarrow> (evs @ evs', out)))"

definition main ::
  "options \<Rightarrow> usage_mode \<Rightarrow> SupportedDevices \<Rightarrow> world \<Rightarrow> string list \<Rightarrow>
     event list \<times> outcome" where
  "main opts mode0 supportedDevices w params =
     (case parse_params (initial_vars mode0) params of
        Inl u \<Rightarrow> ([], Undefined u)
      | Inr v \<Rightarrow>
          if files v = [] then ([Help], Exit 1)
          else
            (case device_loop opts supportedDevices w v (files v) of
               (evs, out) \<Rightarrow> ((if silent opts then [] else [Notice]) @ evs, out)))"

text \<open>
  The values that \<open>HIDIOCSUSAGE\<close> accepted on path \<open>p\<close>, in the order of the trace.
\<close>

fun written :: "string \<Rightarrow> event list \<Rightarrow> int list" where
  "written p [] = []"
| "written p (Ioctl q (HIDIOCSUSAGE x) ok # es) =
     (if q = p \<and> ok then x # written p es else written p es)"
| "written p (e # es) = written p es"

subsection \<open>Sample devices\<close>

text \<open>
  A 2022 Apple Studio Display that answers every request: its application is Monitor
  Control (usage page \<open>0x80\<close>), it reports the brightness \<open>current\<close> when first read and
  \<open>readback\<close> when read again after a change.
\<close>

definition studio_display :: "int \<Rightarrow> int \<Rightarrow> hid_device" where
  "studio_display current readback =
     \<lparr>HIDIOCGDEVINFO =
        \<lparr>devinfo_vendor = 0x05ac, devinfo_product = 0x1114, num_applications = 1\<rparr>,
      HIDIOCAPPLICATION = (\<lambda>appl_num. 0x00800001),
      HIDIOCINITREPORT_ok = True,
      HIDIOCSUSAGE_ok = True,
      HIDIOCSREPORT_ok = True,
      HIDIOCGUSAGE_value = Some current,
      HIDIOCGREPORT_ok = True,
      HIDIOCGUSAGE_value2 = Some readback,
      HIDIOCGREPORT_ok2 = True\<rparr>"

text \<open>A keyboard of another vendor: one application, Generic Desktop / Keyboard.\<close>

definition usb_keyboard :: hid_device where
  "usb_keyboard =
     \<lparr>HIDIOCGDEVINFO =
        \<lparr>devinfo_vendor = 0x046d, devinfo_product = 0xc31c, num_applications = 1\<rparr>,
      HIDIOCAPPLICATION = (\<lambda>appl_num. 0x00010006),
      HIDIOCINITREPORT_ok = True,
      HIDIOCSUSAGE_ok = True,
      HIDIOCSREPORT_ok = True,
      HIDIOCGUSAGE_value = Some 0,
      HIDIOCGREPORT_ok = True,
      HIDIOCGUSAGE_value2 = Some 0,
      HIDIOCGREPORT_ok2 = True\<rparr>"

definition hiddev0 :: string where "hiddev0 = ''/dev/usb/hiddev0''"
definition hiddev1 :: string where "hiddev1 = ''/dev/usb/hiddev1''"

text \<open>A world with the device \<open>d0\<close> at \<open>hiddev0\<close>, \<open>d1\<close> at \<open>hiddev1\<close> and nothing else.\<close>

definition two_devices :: "hid_device \<Rightarrow> hid_device \<Rightarrow> world" where
  "two_devices d0 d1 =
     (\<lambda>p. if p = hiddev0 then Some d0 else if p = hiddev1 then Some d1 else None)"

definition quiet :: options where
  "quiet = \<lparr>brief = False, silent = True, force = False\<rparr>"
section \<open>Evaluating a run\<close>

text \<open>The equations that compute a run on given parameters and a given world.\<close>

lemmas eval_simps = main_def initial_vars_def is_digit_def first_char_def atoi_def
  atoi_value_def is_space_def checked_def in_int_def INT_MIN_def INT_MAX_def
  process_device_def report_transaction_def scale_percent_def is_supported_def
  init_device_database_def APPLE_def STUDIO_DISPLAY_27_def is_usb_monitor_def
  is_usb_monitor_loop.simps two_devices_def studio_display_def usb_keyboard_def hiddev0_def
  hiddev1_def quiet_def open_mode_def c_div_def Let_def
section \<open>The token classifier\<close>

lemma number_old_loop_digits: "number_old_loop s \<longleftrightarrow> (\<forall>c\<in>set s. is_digit c)"
  by (induction s) auto

lemma number_loop_no_percent:
  "CHR ''%'' \<notin> set s \<Longrightarrow> number_loop False s \<longleftrightarrow> (\<forall>c\<in>set s. is_digit c)"
  by (induction s) auto

text \<open>
  Where the two revisions of \<^verbatim>\<open>number\<close> do agree: on tokens without a percent sign that
  do not start with a sign.
\<close>

lemma revisions_agree_unsigned:
  assumes "CHR ''%'' \<notin> set s" and "first_char s \<noteq> CHR ''+''" and "first_char s \<noteq> CHR ''-''"
  shows "number_old (Some s) = number (Some s)"
proof (cases s)
  case Nil
  then show ?thesis by simp
next
  case (Cons c cs)
  with assms have "CHR ''%'' \<notin> set cs" "c \<noteq> CHR ''+''" "c \<noteq> CHR ''-''"
    by (simp_all add: first_char_def)
  then show ?thesis
    using Cons by (auto simp: number_old_loop_digits number_loop_no_percent)
qed

text \<open>
  C2. The classifier is to reject every token with an empty digit run, among them the
  lone \<open>+\<close> and \<open>-\<close>, which are then file paths. The newer \<^verbatim>\<open>number\<close> rejects the
  empty string, \<open>%\<close>, \<open>12%5\<close> and \<open>12a\<close> and accepts \<open>0\<close>, \<open>+5960\<close>, \<open>20%\<close> and
  \<open>+10%\<close>, as the claim says; but it accepts the lone \<open>+\<close> and \<open>-\<close> too, since its loop
  never counts digits. \<^verbatim>\<open>main\<close> then takes a lone \<open>+\<close> for a relative change by
  \<^verbatim>\<open>atoi("+")\<close>, which is 0, and not for a path.
\<close>

theorem number_accepts_lone_sign:
  "number (Some ''+'') \<and> number (Some ''-'') \<and>
   \<not> number (Some '''') \<and> \<not> number (Some ''%'') \<and>
   \<not> number (Some ''12%5'') \<and> \<not> number (Some ''12a'') \<and>
   number (Some ''0'') \<and> number (Some ''+5960'') \<and>
   number (Some ''20%'') \<and> number (Some ''+10%'') \<and>
   parse_params (initial_vars USAGE_MODE_GET) [''/dev/usb/hiddev0'', ''+''] =
     Inr \<lparr>mode = USAGE_MODE_SETREL, brightness = 0, amount = 0, percent = False,
          files = [''/dev/usb/hiddev0''], first_device = True\<rparr>"
  by (simp add: is_digit_def initial_vars_def first_char_def atoi_def atoi_value_def
      is_space_def checked_def in_int_def INT_MIN_def INT_MAX_def)

text \<open>
  C9. The two revisions of \<^verbatim>\<open>number\<close> are to agree on every token without a percent
  sign. They do not: the older revision lets a leading sign pass its first test and then
  starts its digit loop at that same character, so it rejects every signed token, which
  the newer revision (and the older revision's own documentation of relative numbers)
  accepts.
\<close>

theorem number_old_rejects_signed:
  "\<not> number_old (Some ''+5960'') \<and> number (Some ''+5960'') \<and>
   \<not> number_old (Some ''-5960'') \<and> number (Some ''-5960'')"
  by (simp add: is_digit_def)
section \<open>The positional parameters\<close>

lemma parse_params_append:
  "parse_params v (xs @ ys) =
     (case parse_params v xs of Inl u \<Rightarrow> Inl u | Inr v1 \<Rightarrow> parse_params v1 ys)"
  by (induction xs arbitrary: v) (auto split: sum.splits)

lemma parse_params_paths:
  "\<forall>a\<in>set xs. \<not> number (Some a) \<Longrightarrow> parse_params v xs = Inr (v\<lparr>files := files v @ xs\<rparr>)"
  by (induction xs arbitrary: v) auto

lemma parse_params_mode:
  "parse_params v xs = Inr v' \<Longrightarrow> mode v \<noteq> USAGE_MODE_DETECT \<Longrightarrow> mode v' \<noteq> USAGE_MODE_DETECT"
  by (induction xs arbitrary: v) (auto split: sum.splits if_splits)

lemma parse_params_files:
  "parse_params v xs = Inr v' \<Longrightarrow> mode v \<noteq> USAGE_MODE_DETECT \<Longrightarrow>
   files v' = files v @ filter (\<lambda>a. \<not> number (Some a)) xs"
  by (induction xs arbitrary: v) (auto split: sum.splits if_splits)

lemma parse_params_defined:
  "\<forall>a\<in>set xs. number (Some a) \<longrightarrow> in_int (atoi_value a) \<Longrightarrow> \<exists>v'. parse_params v xs = Inr v'"
  by (induction xs arbitrary: v) (auto simp: atoi_def checked_def)

text \<open>
  C10, as stated, fails. Each numeric token is to overwrite the one parsed before it, so
  that the last numeric token alone decides the mode, the numeric value and the
  percentage flag. The parameter loop stores a signed token in \<^verbatim>\<open>amount\<close> and an
  unsigned one in \<^verbatim>\<open>brightness\<close>, and leaves the other variable as it is. After \<open>+5\<close>
  and \<open>50%\<close> the mode is absolute and \<^verbatim>\<open>brightness\<close> is 50, but \<^verbatim>\<open>amount\<close> is still 5,
  where \<open>50%\<close> alone leaves it 0; and the earlier token shows in the run: a Studio
  Display is set to 50 after \<open>+5\<close> and \<open>50%\<close>, and to 30200 after \<open>50%\<close> alone.
\<close>

theorem earlier_numeric_token_counterexample:
  "parse_params (initial_vars USAGE_MODE_GET) [''+5'', hiddev0, ''50%''] =
     Inr \<lparr>mode = USAGE_MODE_SET, brightness = 50, amount = 5, percent = True,
          files = [hiddev0], first_device = True\<rparr> \<and>
   parse_params (initial_vars USAGE_MODE_GET) [hiddev0, ''50%''] =
     Inr \<lparr>mode = USAGE_MODE_SET, brightness = 50, amount = 0, percent = True,
          files = [hiddev0], first_device = True\<rparr> \<and>
   written hiddev0 (fst (main quiet USAGE_MODE_GET init_device_database
      (two_devices (studio_display 30000 30000) usb_keyboard)
      [''+5'', hiddev0, ''50%''])) = [50] \<and>
   written hiddev0 (fst (main quiet USAGE_MODE_GET init_device_database
      (two_devices (studio_display 30000 30000) usb_keyboard)
      [hiddev0, ''50%''])) = [30200]"
  by (simp add: eval_simps)

text \<open>
  C10, amended. Outside detect mode, and when \<^verbatim>\<open>atoi\<close> can represent every numeric
  token, the parameters up to the last numeric token leave the variables \<open>v1\<close>, and the
  whole loop returns \<open>v1\<close> changed in four places only: the mode is relative for a signed
  last token and absolute otherwise, the variable of that kind (\<^verbatim>\<open>amount\<close> when signed,
  \<^verbatim>\<open>brightness\<close> when not) is \<^verbatim>\<open>atoi\<close> of the last token, the percentage flag is
  \<^verbatim>\<open>isPercent\<close> of the last token, and the parameters after it are added to the file
  list. So the last numeric token decides the mode, the flag and the variable of its own
  kind; the variable of the other kind is not overwritten and keeps what the earlier
  parameters left in it. The file list receives exactly the parameters that are not
  numeric: no numeric token becomes a device path.
\<close>

theorem last_numeric_token_keeps_other_variable:
  assumes nodetect: "mode v \<noteq> USAGE_MODE_DETECT"
    and split: "params = before @ token # after"
    and token: "number (Some token)"
    and after: "\<forall>a\<in>set after. \<not> number (Some a)"
    and range: "\<forall>a\<in>set params. number (Some a) \<longrightarrow> in_int (atoi_value a)"
  shows "\<exists>v1 v'. parse_params v before = Inr v1 \<and> parse_params v params = Inr v' \<and>
           v' = (if first_char token = CHR ''+'' \<or> first_char token = CHR ''-''
                 then v1\<lparr>mode := USAGE_MODE_SETREL, amount := atoi_value token,
                         percent := isPercent (Some token), files := files v1 @ after\<rparr>
                 else v1\<lparr>mode := USAGE_MODE_SET, brightness := atoi_value token,
                         percent := isPercent (Some token), files := files v1 @ after\<rparr>) \<and>
           files v' = files v @ filter (\<lambda>a. \<not> number (Some a)) params"
proof -
  from range split have "\<forall>a\<in>set before. number (Some a) \<longrightarrow> in_int (atoi_value a)"
    by simp
  then obtain v1 where v1: "parse_params v before = Inr v1"
    using parse_params_defined by blast
  have m1: "mode v1 \<noteq> USAGE_MODE_DETECT"
    using parse_params_mode [OF v1 nodetect] .
  have f1: "files v1 = files v @ filter (\<lambda>a. \<not> number (Some a)) before"
    using parse_params_files [OF v1 nodetect] .
  from range split token have tr: "in_int (atoi_value token)"
    by simp
  define v2 where "v2 =
    (if first_char token = CHR ''+'' \<or> first_char token = CHR ''-''
     then v1\<lparr>mode := USAGE_MODE_SETREL, amount := atoi_value token,
             percent := isPercent (Some token)\<rparr>
     else v1\<lparr>mode := USAGE_MODE_SET, brightness := atoi_value token,
             percent := isPercent (Some token)\<rparr>)"
  define v' where "v' = v2\<lparr>files := files v2 @ after\<rparr>"
  have step: "parse_params v1 (token # after) = parse_params v2 after"
    using m1 token tr by (simp add: v2_def atoi_def checked_def)
  have rest: "parse_params v2 after = Inr v'"
    unfolding v'_def using parse_params_paths [OF after] .
  have whole: "parse_params v params = Inr v'"
    by (simp only: split parse_params_append v1 sum.case step rest)
  have shape: "v' =
      (if first_char token = CHR ''+'' \<or> first_char token = CHR ''-''
       then v1\<lparr>mode := USAGE_MODE_SETREL, amount := atoi_value token,
               percent := isPercent (Some token), files := files v1 @ after\<rparr>
       else v1\<lparr>mode := USAGE_MODE_SET, brightness := atoi_value token,
               percent := isPercent (Some token), files := files v1 @ after\<rparr>)"
    by (simp add: v'_def v2_def del: isPercent.simps)
  have keep: "filter (\<lambda>a. \<not> number (Some a)) after = after"
    using after by (simp add: filter_id_conv)
  have "files v' = files v1 @ after"
    by (simp add: v'_def v2_def)
  then have fs: "files v' = files v @ filter (\<lambda>a. \<not> number (Some a)) params"
    using f1 token keep by (simp add: split)
  from v1 whole shape fs show ?thesis
    by blast
qed

theorem last_numeric_token_keeps_other_variable_witness:
  "\<exists>v1 v'.
     parse_params (initial_vars USAGE_MODE_GET) [''20000'', hiddev0] = Inr v1 \<and>
     parse_params (initial_vars USAGE_MODE_GET) [''20000'', hiddev0, ''+10%'', hiddev1] = Inr v' \<and>
     brightness v1 = 20000 \<and>
     mode v' = USAGE_MODE_SETREL \<and> amount v' = 10 \<and> percent v' \<and>
     brightness v' = 20000 \<and> files v' = [hiddev0, hiddev1]"
proof -
  have n: "number (Some ''+10%'')" "\<not> number (Some hiddev0)" "\<not> number (Some hiddev1)"
    "number (Some ''20000'')"
    by (simp_all add: is_digit_def hiddev0_def hiddev1_def)
  have a: "atoi_value ''20000'' = 20000" "atoi_value ''+10%'' = 10"
    by (simp_all add: is_digit_def atoi_value_def is_space_def)
  have h1: "mode (initial_vars USAGE_MODE_GET) \<noteq> USAGE_MODE_DETECT"
    by (simp add: initial_vars_def)
  have h2: "[''20000'', hiddev0, ''+10%'', hiddev1] = [''20000'', hiddev0] @ ''+10%'' # [hiddev1]"
    by simp
  have h4: "\<forall>a\<in>set [hiddev1]. \<not> number (Some a)"
    using n by simp
  have h5: "\<forall>a\<in>set [''20000'', hiddev0, ''+10%'', hiddev1].
              number (Some a) \<longrightarrow> in_int (atoi_value a)"
    using n a by (simp add: in_int_def INT_MIN_def INT_MAX_def)
  have p: "isPercent (Some ''+10%'')" "first_char ''+10%'' = CHR ''+''"
    by (simp_all add: first_char_def)
  have b: "parse_params (initial_vars USAGE_MODE_GET) [''20000'', hiddev0] =
      Inr \<lparr>mode = USAGE_MODE_SET, brightness = 20000, amount = 0, percent = False,
           files = [hiddev0], first_device = True\<rparr>"
    by (simp add: eval_simps)
  from last_numeric_token_keeps_other_variable [OF h1 h2 n(1) h4 h5] obtain v1 v' where
    r: "parse_params (initial_vars USAGE_MODE_GET) [''20000'', hiddev0] = Inr v1"
      "parse_params (initial_vars USAGE_MODE_GET) [''20000'', hiddev0, ''+10%'', hiddev1] = Inr v'"
      "v' = (if first_char ''+10%'' = CHR ''+'' \<or> first_char ''+10%'' = CHR ''-''
             then v1\<lparr>mode := USAGE_MODE_SETREL, amount := atoi_value ''+10%'',
                     percent := isPercent (Some ''+10%''), files := files v1 @ [hiddev1]\<rparr>
             else v1\<lparr>mode := USAGE_MODE_SET, brightness := atoi_value ''+10%'',
                     percent := isPercent (Some ''+10%''), files := files v1 @ [hiddev1]\<rparr>)"
    by blast
  from r(1) b have v1: "v1 = \<lparr>mode = USAGE_MODE_SET, brightness = 20000, amount = 0,
      percent = False, files = [hiddev0], first_device = True\<rparr>"
    by simp
  have v': "v' = v1\<lparr>mode := USAGE_MODE_SETREL, amount := 10, percent := True,
      files := files v1 @ [hiddev1]\<rparr>"
    using r(3) p a(2) by (simp del: isPercent.simps)
  have "brightness v1 = 20000 \<and> mode v' = USAGE_MODE_SETREL \<and> amount v' = 10 \<and> percent v' \<and>
      brightness v' = 20000 \<and> files v' = [hiddev0, hiddev1]"
    by (simp add: v' v1)
  with r(1,2) show ?thesis
    by blast
qed
section \<open>The monitor gate\<close>

lemma is_usb_monitor_loop_iff:
  "is_usb_monitor_loop d n \<longleftrightarrow>
     (\<exists>i. n \<le> i \<and> i < num_applications (HIDIOCGDEVINFO d) \<and>
          drop_bit 16 (HIDIOCAPPLICATION d i) AND 0xFF = 0x80)"
proof (induction d n rule: is_usb_monitor_loop.induct)
  case (1 d appl_num)
  show ?case
  proof (cases "appl_num < num_applications (HIDIOCGDEVINFO d)")
    case False
    then show ?thesis
      by (subst is_usb_monitor_loop.simps) auto
  next
    case True
    show ?thesis
    proof (cases "drop_bit 16 (HIDIOCAPPLICATION d appl_num) AND 0xFF = 0x80")
      case hit: True
      then show ?thesis
        using True by (subst is_usb_monitor_loop.simps) (auto simp: Let_def)
    next
      case miss: False
      have "is_usb_monitor_loop d appl_num = is_usb_monitor_loop d (Suc appl_num)"
        using True miss by (subst is_usb_monitor_loop.simps) (simp add: Let_def)
      also have "\<dots> \<longleftrightarrow> (\<exists>i. Suc appl_num \<le> i \<and> i < num_applications (HIDIOCGDEVINFO d) \<and>
            drop_bit 16 (HIDIOCAPPLICATION d i) AND 0xFF = 0x80)"
        using "1.IH" [OF True refl miss] .
      also have "\<dots> \<longleftrightarrow> (\<exists>i. appl_num \<le> i \<and> i < num_applications (HIDIOCGDEVINFO d) \<and>
            drop_bit 16 (HIDIOCAPPLICATION d i) AND 0xFF = 0x80)"
        using miss by (metis Suc_leD Suc_leI le_neq_implies_less)
      finally show ?thesis .
    qed
  qed
qed

lemma is_usb_monitor_iff:
  "is_usb_monitor d \<longleftrightarrow>
     (\<exists>i < num_applications (HIDIOCGDEVINFO d). drop_bit 16 (HIDIOCAPPLICATION d i) AND 0xFF = 0x80)"
  by (simp add: is_usb_monitor_def is_usb_monitor_loop_iff)

lemma report_transaction_paths:
  "report_transaction opts sd d v p = (evs, res) \<Longrightarrow> Ioctl q r ok \<in> set evs \<Longrightarrow> q = p"
  by (auto simp: report_transaction_def Let_def split: if_splits option.splits sum.splits)

lemma process_device_paths:
  "Ioctl q r ok \<in> set (fst (process_device opts db w v p)) \<Longrightarrow> q = p"
  by (auto simp: process_device_def Let_def split: if_splits option.splits sum.splits prod.splits
      dest: report_transaction_paths)

lemma process_device_not_monitor:
  "w p = Some d \<Longrightarrow> \<not> is_usb_monitor d \<Longrightarrow> Ioctl q r ok \<notin> set (fst (process_device opts db w v p))"
  by (auto simp: process_device_def Let_def)

lemma device_loop_not_monitor:
  "w p = Some d \<Longrightarrow> \<not> is_usb_monitor d \<Longrightarrow> Ioctl p r ok \<notin> set (fst (device_loop opts db w v ps))"
proof (induction ps arbitrary: v)
  case Nil
  then show ?case by simp
next
  case (Cons q qs)
  have here: "Ioctl p r ok \<notin> set (fst (process_device opts db w v q))"
  proof (cases "q = p")
    case True
    then show ?thesis
      using Cons.prems process_device_not_monitor by blast
  next
    case False
    then show ?thesis
      using process_device_paths by blast
  qed
  show ?case
  proof (cases "process_device opts db w v q")
    case (Pair evs res)
    with here have e: "Ioctl p r ok \<notin> set evs" by simp
    show ?thesis
    proof (cases res)
      case (Inl out)
      with Pair e show ?thesis by simp
    next
      case (Inr v')
      have "Ioctl p r ok \<notin> set (fst (device_loop opts db w v' qs))"
        using Cons.IH [OF Cons.prems] .
      with Pair Inr e show ?thesis
        by (cases "device_loop opts db w v' qs") simp
    qed
  qed
qed

text \<open>
  C7. A device none of whose enumerated application identifiers (those of the indices
  below \<^verbatim>\<open>num_applications\<close>) has bits 16 to 23 equal to \<open>0x80\<close> is never written to:
  whatever the options (the force flag among them), the mode, the database and the
  parameters, the run issues no \<open>HIDIOCSUSAGE\<close> and no \<open>HIDIOCSREPORT\<close> on its path,
  successful or not; it issues no report-level request on it at all, since the device is
  left at the monitor gate (in detect mode, before it), ahead of \<open>HIDIOCINITREPORT\<close>.
\<close>

theorem non_monitor_never_written:
  assumes "w p = Some d"
    and "\<forall>i < num_applications (HIDIOCGDEVINFO d).
           drop_bit 16 (HIDIOCAPPLICATION d i) AND 0xFF \<noteq> 0x80"
  shows "(\<forall>x ok. Ioctl p (HIDIOCSUSAGE x) ok \<notin> set (fst (main opts start db w params))) \<and>
         (\<forall>ok. Ioctl p HIDIOCSREPORT ok \<notin> set (fst (main opts start db w params))) \<and>
         (\<forall>r ok. Ioctl p r ok \<notin> set (fst (main opts start db w params)))"
proof -
  have nm: "\<not> is_usb_monitor d"
    using assms(2) by (simp add: is_usb_monitor_iff)
  have "Ioctl p r ok \<notin> set (fst (device_loop opts db w v ps))" for r ok v ps
    using assms(1) nm by (rule device_loop_not_monitor)
  then have "device_loop opts db w v ps = (evs, out) \<Longrightarrow> Ioctl p r ok \<notin> set evs"
    for r ok v ps evs out
    by (metis fst_conv)
  then have "Ioctl p r ok \<notin> set (fst (main opts start db w params))" for r ok
    by (auto simp: main_def split: sum.splits prod.splits)
  then show ?thesis
    by blast
qed

theorem non_monitor_never_written_witness:
  "Ioctl hiddev0 (HIDIOCSUSAGE 20000) True \<notin>
      set (fst (main (quiet\<lparr>force := True\<rparr>) USAGE_MODE_GET init_device_database
             (two_devices usb_keyboard (studio_display 30000 20000))
             [hiddev0, hiddev1, ''20000''])) \<and>
   Ioctl hiddev0 HIDIOCSREPORT True \<notin>
      set (fst (main (quiet\<lparr>force := True\<rparr>) USAGE_MODE_GET init_device_database
             (two_devices usb_keyboard (studio_display 30000 20000))
             [hiddev0, hiddev1, ''20000'']))"
proof -
  have w: "two_devices usb_keyboard (studio_display 30000 20000) hiddev0 = Some usb_keyboard"
    by (simp add: two_devices_def)
  have a: "\<forall>i < num_applications (HIDIOCGDEVINFO usb_keyboard).
      drop_bit 16 (HIDIOCAPPLICATION usb_keyboard i) AND 0xFF \<noteq> 0x80"
    by (simp add: usb_keyboard_def)
  show ?thesis
    using non_monitor_never_written
      [where w = "two_devices usb_keyboard (studio_display 30000 20000)" and p = hiddev0
         and d = usb_keyboard, OF w a]
    by blast
qed
section \<open>One device, and the loop over the devices\<close>

lemma written_append: "written p (xs @ ys) = written p xs @ written p ys"
  by (induction p xs rule: written.induct) auto

lemma scale_percent_off: "\<not> percent v \<Longrightarrow> scale_percent sel v = Inr v"
  by (simp add: scale_percent_def)

lemma process_device_admitted:
  assumes "w p = Some d" and "mode v \<noteq> USAGE_MODE_DETECT"
    and "is_supported db (HIDIOCGDEVINFO d) = sel" and "sel \<noteq> None \<or> force opts"
    and "is_usb_monitor d" and "HIDIOCINITREPORT_ok d"
    and "scale_percent sel v = Inr scaled"
    and "report_transaction opts sel d scaled p = (evs, res)"
  shows "written q (fst (process_device opts db w v p)) = written q evs"
    and "snd (process_device opts db w v p) =
           (case res of Inl out \<Rightarrow> Inl out | Inr v2 \<Rightarrow> Inr (v2\<lparr>first_device := False\<rparr>))"
  using assms
  by (auto simp: process_device_def Let_def written_append split: sum.splits)

lemma report_transaction_set:
  assumes "mode v = USAGE_MODE_SET" and "HIDIOCSUSAGE_ok d"
  shows "written p (fst (report_transaction opts sel d v p)) = [brightness v]"
    and "HIDIOCSREPORT_ok d \<Longrightarrow> snd (report_transaction opts sel d v p) = Inr v"
  using assms by (simp_all add: report_transaction_def)

lemma report_transaction_setrel:
  assumes "mode v = USAGE_MODE_SETREL"
    and "HIDIOCGUSAGE_value d = Some x" and "HIDIOCGREPORT_ok d"
    and "in_int (x + amount v)" and "HIDIOCSUSAGE_ok d"
  shows "written p (fst (report_transaction opts (Some sd) d v p)) =
           [min (brightness_max sd) (max (brightness_min sd) (x + amount v))]"
  using assms
  by (simp add: report_transaction_def checked_def Let_def split: option.splits)

lemma device_loop_stop:
  "snd (process_device opts db w v p) = Inl out \<Longrightarrow>
   device_loop opts db w v (p # ps) = (fst (process_device opts db w v p), out)"
  by (cases "process_device opts db w v p") simp


text \<open>
  A failed request is followed by its error message and by nothing else, and decides the
  exit status.
\<close>

lemma two_last:
  assumes "2 \<le> length xs"
  shows "xs = butlast (butlast xs) @ [last (butlast xs), last xs]"
proof -
  from assms have "xs \<noteq> []" by auto
  then have a: "xs = butlast xs @ [last xs]" by simp
  from assms have "butlast xs \<noteq> []" by (cases xs) auto
  then have b: "butlast xs = butlast (butlast xs) @ [last (butlast xs)]" by simp
  show ?thesis by (subst a, subst b) simp
qed

lemma report_transaction_failed:
  assumes "report_transaction opts sel d v p = (evs, res)" and "Ioctl q r False \<in> set evs"
  shows "2 \<le> length evs \<and> last (butlast evs) = Ioctl q r False \<and>
         res = Inl (Exit (case r of HIDIOCINITREPORT \<Rightarrow> 1 | HIDIOCSUSAGE x \<Rightarrow> 2
                          | HIDIOCSREPORT \<Rightarrow> 3 | HIDIOCGUSAGE \<Rightarrow> 2 | HIDIOCGREPORT \<Rightarrow> 3))"
  using assms
  by (auto simp: report_transaction_def Let_def split: if_splits option.splits sum.splits)

lemma report_transaction_no_cerr:
  "report_transaction opts sel d v p = (evs, res) \<Longrightarrow> Cerr m \<notin> set evs"
  by (auto simp: report_transaction_def Let_def split: if_splits option.splits sum.splits)


lemma report_transaction_failed':
  assumes "report_transaction opts sel d v p = (evs, res)" and "Ioctl q r False \<in> set evs"
  shows "evs \<noteq> []" and "butlast evs \<noteq> []" and "last (butlast evs) = Ioctl q r False"
    and "res = Inl (Exit (case r of HIDIOCINITREPORT \<Rightarrow> 1 | HIDIOCSUSAGE x \<Rightarrow> 2
                          | HIDIOCSREPORT \<Rightarrow> 3 | HIDIOCGUSAGE \<Rightarrow> 2 | HIDIOCGREPORT \<Rightarrow> 3))"
proof -
  note f = report_transaction_failed [OF assms]
  from f show "evs \<noteq> []" by auto
  from f show "butlast evs \<noteq> []" by (cases evs) auto
  from f show "last (butlast evs) = Ioctl q r False" by simp
  from f show "res = Inl (Exit (case r of HIDIOCINITREPORT \<Rightarrow> 1 | HIDIOCSUSAGE x \<Rightarrow> 2
                          | HIDIOCSREPORT \<Rightarrow> 3 | HIDIOCGUSAGE \<Rightarrow> 2 | HIDIOCGREPORT \<Rightarrow> 3))"
    by simp
qed

lemma process_device_failed:
  assumes "process_device opts db w v p = (evs, res)" and "Ioctl q r False \<in> set evs"
  shows "2 \<le> length evs \<and> last (butlast evs) = Ioctl q r False \<and>
         res = Inl (Exit (case r of HIDIOCINITREPORT \<Rightarrow> 1 | HIDIOCSUSAGE x \<Rightarrow> 2
                          | HIDIOCSREPORT \<Rightarrow> 3 | HIDIOCGUSAGE \<Rightarrow> 2 | HIDIOCGREPORT \<Rightarrow> 3))"
proof (cases "w p")
  case None
  with assms show ?thesis by (auto simp: process_device_def)
next
  case (Some d)
  define sel where "sel = is_supported db (HIDIOCGDEVINFO d)"
  define looked_up where "looked_up =
     (Open p (open_mode v) # (if \<not> silent opts \<and> first_device v then [DriverVersion] else [])) @
     (if sel = None then [Cerr ''Unsupported device:''] else [])"
  have lu: "Ioctl q r False \<notin> set looked_up"
    by (simp add: looked_up_def)
  show ?thesis
  proof (cases "mode v = USAGE_MODE_DETECT \<or> (sel = None \<and> \<not> force opts) \<or> \<not> is_usb_monitor d")
    case True
    with assms Some show ?thesis
      by (auto simp: process_device_def Let_def sel_def split: if_splits)
  next
    case adm: False
    show ?thesis
    proof (cases "HIDIOCINITREPORT_ok d")
      case False
      with assms Some adm show ?thesis
        by (auto simp: process_device_def Let_def sel_def split: if_splits)
    next
      case init: True
      show ?thesis
      proof (cases "scale_percent sel v")
        case (Inl u)
        with assms Some adm init show ?thesis
          by (auto simp: process_device_def Let_def sel_def split: if_splits)
      next
        case (Inr v1)
        obtain evs' res' where rt: "report_transaction opts sel d v1 p = (evs', res')"
          by (cases "report_transaction opts sel d v1 p")
        show ?thesis
        proof (cases res')
          case (Inl out)
          have e: "evs = looked_up @ Ioctl p HIDIOCINITREPORT True # evs'" and r: "res = Inl out"
            using assms(1) Some adm init Inr rt Inl
            by (auto simp: process_device_def Let_def sel_def looked_up_def)
          from assms(2) e lu have m: "Ioctl q r False \<in> set evs'"
            by auto
          note f = report_transaction_failed' [OF rt m]
          from f(1) have "Suc 0 \<le> length evs'"
            by (cases evs') auto
          then show ?thesis
            using f Inl r by (simp add: e butlast_append)
        next
          case (Inr v2)
          have e: "evs = looked_up @ Ioctl p HIDIOCINITREPORT True # evs' @ [Close p]"
            using assms(1) Some adm init \<open>scale_percent sel v = Inr v1\<close> rt Inr
            by (auto simp: process_device_def Let_def sel_def looked_up_def)
          from assms(2) e lu have m: "Ioctl q r False \<in> set evs'"
            by auto
          from report_transaction_failed' (4) [OF rt m] Inr show ?thesis
            by simp
        qed
      qed
    qed
  qed
qed

lemma process_device_failed_shape:
  assumes "process_device opts db w v p = (evs, res)" and "Ioctl q r False \<in> set evs"
  shows "\<exists>pre msg. evs = pre @ [Ioctl q r False, msg]"
proof -
  from process_device_failed [OF assms]
  have "2 \<le> length evs" and l: "last (butlast evs) = Ioctl q r False"
    by simp_all
  from two_last [OF this(1)] l show ?thesis
    by metis
qed

lemma process_device_unsupported:
  assumes "process_device opts db w v p = (evs, res)"
    and "Cerr ''Unsupported device:'' \<in> set evs" and "\<not> force opts"
  shows "res = Inl (Exit 2)"
  using assms
  by (auto simp: process_device_def Let_def split: if_splits option.splits sum.splits prod.splits
      dest: report_transaction_no_cerr)


lemma device_loop_failed:
  assumes "device_loop opts db w v ps = (evs, out)" and "Ioctl q r False \<in> set evs"
  shows "(\<exists>pre msg. evs = pre @ [Ioctl q r False, msg]) \<and>
         out = Exit (case r of HIDIOCINITREPORT \<Rightarrow> 1 | HIDIOCSUSAGE x \<Rightarrow> 2
                     | HIDIOCSREPORT \<Rightarrow> 3 | HIDIOCGUSAGE \<Rightarrow> 2 | HIDIOCGREPORT \<Rightarrow> 3)"
  using assms
proof (induction ps arbitrary: v evs out)
  case Nil
  then show ?case by simp
next
  case (Cons p ps)
  obtain evs1 res where pd: "process_device opts db w v p = (evs1, res)"
    by (cases "process_device opts db w v p")
  show ?case
  proof (cases res)
    case (Inl out1)
    with pd Cons.prems(1) have "evs = evs1" "out = out1"
      by simp_all
    with Cons.prems(2) pd Inl show ?thesis
      using process_device_failed [of opts db w v p evs1 res q r]
        process_device_failed_shape [of opts db w v p evs1 res q r]
      by simp
  next
    case (Inr v')
    obtain evs2 out2 where dl: "device_loop opts db w v' ps = (evs2, out2)"
      by (cases "device_loop opts db w v' ps")
    with pd Inr Cons.prems(1) have e: "evs = evs1 @ evs2" and o: "out = out2"
      by simp_all
    have "Ioctl q r False \<notin> set evs1"
      using process_device_failed [OF pd] Inr by auto
    with Cons.prems(2) e have "Ioctl q r False \<in> set evs2"
      by simp
    from Cons.IH [OF dl this] obtain pre msg where
      "evs2 = pre @ [Ioctl q r False, msg]"
      and "out2 = Exit (case r of HIDIOCINITREPORT \<Rightarrow> 1 | HIDIOCSUSAGE x \<Rightarrow> 2
                     | HIDIOCSREPORT \<Rightarrow> 3 | HIDIOCGUSAGE \<Rightarrow> 2 | HIDIOCGREPORT \<Rightarrow> 3)"
      by blast
    then have "evs = (evs1 @ pre) @ [Ioctl q r False, msg]"
      using e by simp
    then show ?thesis
      using o \<open>out2 = _\<close> by blast
  qed
qed

lemma device_loop_unsupported:
  assumes "device_loop opts db w v ps = (evs, out)"
    and "Cerr ''Unsupported device:'' \<in> set evs" and "\<not> force opts"
  shows "out = Exit 2"
  using assms
proof (induction ps arbitrary: v evs out)
  case Nil
  then show ?case by simp
next
  case (Cons p ps)
  obtain evs1 res where pd: "process_device opts db w v p = (evs1, res)"
    by (cases "process_device opts db w v p")
  show ?case
  proof (cases res)
    case (Inl out1)
    with pd Cons.prems(1) have "evs = evs1" "out = out1"
      by simp_all
    with Cons.prems pd Inl show ?thesis
      using process_device_unsupported [of opts db w v p evs1 res]
      by simp
  next
    case (Inr v')
    obtain evs2 out2 where dl: "device_loop opts db w v' ps = (evs2, out2)"
      by (cases "device_loop opts db w v' ps")
    with pd Inr Cons.prems(1) have e: "evs = evs1 @ evs2" and o: "out = out2"
      by simp_all
    have "Cerr ''Unsupported device:'' \<notin> set evs1"
      using process_device_unsupported [OF pd _ Cons.prems(3)] Inr by auto
    with Cons.prems(2) e have "Cerr ''Unsupported device:'' \<in> set evs2"
      by simp
    from Cons.IH [OF dl this Cons.prems(3)] o show ?thesis
      by simp
  qed
qed

lemma main_trace:
  "main opts start db w params = (evs, out) \<Longrightarrow> Ioctl q r ok \<in> set evs \<or> Cerr m \<in> set evs \<Longrightarrow>
   \<exists>v evs'. parse_params (initial_vars start) params = Inr v \<and> files v \<noteq> [] \<and>
     device_loop opts db w v (files v) = (evs', out) \<and>
     evs = (if silent opts then [] else [Notice]) @ evs'"
  by (auto simp: main_def split: sum.splits if_splits prod.splits)
section \<open>The value handed to the device\<close>

lemma scale_percent_mode:
  "scale_percent sel v = Inr scaled \<Longrightarrow> mode scaled = mode v"
  by (auto simp: scale_percent_def split: if_splits option.splits sum.splits)

lemma process_device_set_written:
  assumes "w p = Some d" and "mode v = USAGE_MODE_SET"
    and "is_supported db (HIDIOCGDEVINFO d) \<noteq> None \<or> force opts"
    and "is_usb_monitor d" and "HIDIOCINITREPORT_ok d"
    and "scale_percent (is_supported db (HIDIOCGDEVINFO d)) v = Inr scaled"
    and "HIDIOCSUSAGE_ok d"
  shows "written p (fst (process_device opts db w v p)) = [brightness scaled]"
proof -
  obtain evs res where
    rt: "report_transaction opts (is_supported db (HIDIOCGDEVINFO d)) d scaled p = (evs, res)"
    by (cases "report_transaction opts (is_supported db (HIDIOCGDEVINFO d)) d scaled p")
  have nd: "mode v \<noteq> USAGE_MODE_DETECT"
    using assms(2) by simp
  have ms: "mode scaled = USAGE_MODE_SET"
    using scale_percent_mode [OF assms(6)] assms(2) by simp
  have "written p (fst (process_device opts db w v p)) = written p evs"
    by (rule process_device_admitted(1) [where w = w and p = p and v = v and scaled = scaled,
          OF assms(1) nd refl assms(3,4,5,6) rt])
  moreover have "written p evs = [brightness scaled]"
    using report_transaction_set(1)
      [where opts = opts and sel = "is_supported db (HIDIOCGDEVINFO d)" and p = p,
        OF ms assms(7)] rt
    by simp
  ultimately show ?thesis
    by simp
qed

lemma process_device_setrel_written:
  assumes "w p = Some d" and "mode v = USAGE_MODE_SETREL"
    and "is_supported db (HIDIOCGDEVINFO d) = Some sd"
    and "is_usb_monitor d" and "HIDIOCINITREPORT_ok d"
    and "scale_percent (Some sd) v = Inr scaled"
    and "HIDIOCGUSAGE_value d = Some current" and "HIDIOCGREPORT_ok d"
    and "in_int (current + amount scaled)" and "HIDIOCSUSAGE_ok d"
  shows "written p (fst (process_device opts db w v p)) =
           [min (brightness_max sd) (max (brightness_min sd) (current + amount scaled))]"
proof -
  obtain evs res where rt: "report_transaction opts (Some sd) d scaled p = (evs, res)"
    by (cases "report_transaction opts (Some sd) d scaled p")
  have nd: "mode v \<noteq> USAGE_MODE_DETECT"
    using assms(2) by simp
  have ms: "mode scaled = USAGE_MODE_SETREL"
    using scale_percent_mode [OF assms(6)] assms(2) by simp
  have "written p (fst (process_device opts db w v p)) = written p evs"
    by (rule process_device_admitted(1) [where w = w and p = p and v = v and scaled = scaled,
          OF assms(1) nd assms(3) _ assms(4,5,6) rt]) simp
  moreover have "written p evs =
      [min (brightness_max sd) (max (brightness_min sd) (current + amount scaled))]"
    using report_transaction_setrel [where p = p and opts = opts and sd = sd,
        OF ms assms(7,8,9,10)] rt
    by simp
  ultimately show ?thesis
    by simp
qed

text \<open>The run on one device path followed by one numeric token.\<close>

lemma main_one_device:
  assumes "\<not> number (Some p)" and "number (Some token)" and "in_int (atoi_value token)"
  shows "written q (fst (main opts USAGE_MODE_GET db w [p, token])) =
         written q (fst (process_device opts db w
           (if first_char token = CHR ''+'' \<or> first_char token = CHR ''-''
            then \<lparr>mode = USAGE_MODE_SETREL, brightness = 0, amount = atoi_value token,
                  percent = isPercent (Some token), files = [p], first_device = True\<rparr>
            else \<lparr>mode = USAGE_MODE_SET, brightness = atoi_value token, amount = 0,
                  percent = isPercent (Some token), files = [p], first_device = True\<rparr>) p))"
  using assms
  by (cases "process_device opts db w
           (if first_char token = CHR ''+'' \<or> first_char token = CHR ''-''
            then \<lparr>mode = USAGE_MODE_SETREL, brightness = 0, amount = atoi_value token,
                  percent = isPercent (Some token), files = [p], first_device = True\<rparr>
            else \<lparr>mode = USAGE_MODE_SET, brightness = atoi_value token, amount = 0,
                  percent = isPercent (Some token), files = [p], first_device = True\<rparr>) p")
     (auto simp: main_def initial_vars_def atoi_def checked_def written_append
        simp del: number.simps isPercent.simps split: sum.splits)
subsection \<open>Absolute values\<close>

text \<open>
  C1, as stated, fails. An absolute token that is not a percentage is to be written
  clamped into the bounds of the model, so that on a Studio Display, with the bounds
  400 and 60000, the token 999999 writes 60000 and the token 0 writes 400. The set branch
  of \<^verbatim>\<open>main\<close> hands \<^verbatim>\<open>brightness\<close> to \<open>HIDIOCSUSAGE\<close> as \<^verbatim>\<open>atoi\<close> returned it: the run
  writes 999999 and 0.
\<close>

theorem absolute_token_clamp_counterexample:
  "written hiddev0 (fst (main quiet USAGE_MODE_GET init_device_database
      (two_devices (studio_display 30000 30000) usb_keyboard) [hiddev0, ''999999''])) = [999999] \<and>
   written hiddev0 (fst (main quiet USAGE_MODE_GET init_device_database
      (two_devices (studio_display 30000 30000) usb_keyboard) [hiddev0, ''0''])) = [0]"
  by (simp add: eval_simps)

text \<open>
  C1, amended. For every device that passes the checks of \<^verbatim>\<open>main\<close> (it opens, it is in
  the database or the force flag is set, it is a USB monitor, its report structures
  initialise) and accepts \<open>HIDIOCSUSAGE\<close>, and for every absolute token that is not a
  percentage and whose value \<^verbatim>\<open>atoi\<close> can represent, the run on that device path and that
  token hands exactly the value of the token to \<open>HIDIOCSUSAGE\<close>, whatever the bounds of
  the model are: nothing is clamped.
\<close>

theorem absolute_token_written_unclamped:
  assumes "\<not> number (Some p)" and "number (Some token)"
    and "first_char token \<noteq> CHR ''+''" and "first_char token \<noteq> CHR ''-''"
    and "\<not> isPercent (Some token)" and "in_int (atoi_value token)"
    and "w p = Some d"
    and "is_supported db (HIDIOCGDEVINFO d) \<noteq> None \<or> force opts"
    and "is_usb_monitor d" and "HIDIOCINITREPORT_ok d" and "HIDIOCSUSAGE_ok d"
  shows "written p (fst (main opts USAGE_MODE_GET db w [p, token])) = [atoi_value token]"
proof -
  let ?v = "\<lparr>mode = USAGE_MODE_SET, brightness = atoi_value token, amount = 0,
             percent = isPercent (Some token), files = [p], first_device = True\<rparr>"
  have off: "scale_percent (is_supported db (HIDIOCGDEVINFO d)) ?v = Inr ?v"
    by (rule scale_percent_off) (simp add: assms(5) del: isPercent.simps)
  have "written p (fst (main opts USAGE_MODE_GET db w [p, token])) =
        written p (fst (process_device opts db w ?v p))"
    using main_one_device [OF assms(1,2,6)] assms(3,4) by simp
  also have "\<dots> = [brightness ?v]"
    by (rule process_device_set_written [where w = w and p = p,
          OF assms(7) _ assms(8,9,10) off assms(11)]) simp
  finally show ?thesis
    by simp
qed

theorem absolute_token_written_unclamped_witness:
  "written hiddev0 (fst (main quiet USAGE_MODE_GET init_device_database
      (two_devices (studio_display 30000 30000) usb_keyboard) [hiddev0, ''65535''])) = [65535]"
proof -
  have t: "\<not> number (Some hiddev0)" "number (Some ''65535'')"
    "first_char ''65535'' \<noteq> CHR ''+''" "first_char ''65535'' \<noteq> CHR ''-''"
    "\<not> isPercent (Some ''65535'')"
    by (simp_all add: hiddev0_def is_digit_def first_char_def)
  have a: "atoi_value ''65535'' = 65535"
    by (simp add: atoi_value_def is_space_def is_digit_def)
  have r: "in_int (atoi_value ''65535'')"
    by (simp add: a in_int_def INT_MIN_def INT_MAX_def)
  have w: "two_devices (studio_display 30000 30000) usb_keyboard hiddev0 =
      Some (studio_display 30000 30000)"
    by (simp add: two_devices_def)
  have d: "is_supported init_device_database (HIDIOCGDEVINFO (studio_display 30000 30000)) \<noteq> None \<or>
        force quiet"
    "is_usb_monitor (studio_display 30000 30000)"
    "HIDIOCINITREPORT_ok (studio_display 30000 30000)"
    "HIDIOCSUSAGE_ok (studio_display 30000 30000)"
    by (simp_all add: eval_simps)
  show ?thesis
    using absolute_token_written_unclamped
      [where w = "two_devices (studio_display 30000 30000) usb_keyboard" and p = hiddev0,
        OF t r w d]
    by (simp only: a)
qed

text \<open>
  The same in every run whose parameters set the absolute mode without a percentage,
  with any number of device paths: each value handed to \<open>HIDIOCSUSAGE\<close>, on whichever
  path, is \<^verbatim>\<open>brightness\<close> as the parameter loop left it.
\<close>

lemma report_transaction_set_every_write:
  assumes "report_transaction opts sel d v p = (evs, res)" and "mode v = USAGE_MODE_SET"
  shows "(Ioctl q (HIDIOCSUSAGE x) ok \<in> set evs \<longrightarrow> x = brightness v) \<and>
         (\<forall>v'. res = Inr v' \<longrightarrow> v' = v)"
  using assms by (auto simp: report_transaction_def split: if_splits)

lemma process_device_set_every_write:
  assumes "process_device opts db w v p = (evs, res)"
    and "mode v = USAGE_MODE_SET" and "\<not> percent v"
  shows "(Ioctl q (HIDIOCSUSAGE x) ok \<in> set evs \<longrightarrow> x = brightness v) \<and>
         (\<forall>v'. res = Inr v' \<longrightarrow>
            mode v' = USAGE_MODE_SET \<and> \<not> percent v' \<and> brightness v' = brightness v)"
  using assms
  by (auto simp: process_device_def Let_def scale_percent_off
      split: if_splits option.splits sum.splits prod.splits
      dest: report_transaction_set_every_write)

lemma device_loop_set_every_write:
  assumes "device_loop opts db w v ps = (evs, out)"
    and "mode v = USAGE_MODE_SET" and "\<not> percent v"
    and "Ioctl q (HIDIOCSUSAGE x) ok \<in> set evs"
  shows "x = brightness v"
  using assms
proof (induction ps arbitrary: v evs out)
  case Nil
  then show ?case by simp
next
  case (Cons p ps)
  obtain evs1 res where pd: "process_device opts db w v p = (evs1, res)"
    by (cases "process_device opts db w v p")
  note step = process_device_set_every_write [OF pd Cons.prems(2,3), of q x ok]
  show ?case
  proof (cases res)
    case (Inl out1)
    with pd Cons.prems(1) have "evs = evs1"
      by simp
    with Cons.prems(4) step show ?thesis
      by simp
  next
    case (Inr v')
    obtain evs2 out2 where dl: "device_loop opts db w v' ps = (evs2, out2)"
      by (cases "device_loop opts db w v' ps")
    with pd Inr Cons.prems(1) have e: "evs = evs1 @ evs2"
      by simp
    from step Inr have inv: "mode v' = USAGE_MODE_SET" "\<not> percent v'"
      "brightness v' = brightness v"
      by simp_all
    from Cons.prems(4) e consider "Ioctl q (HIDIOCSUSAGE x) ok \<in> set evs1"
      | "Ioctl q (HIDIOCSUSAGE x) ok \<in> set evs2"
      by auto
    then show ?thesis
    proof cases
      case 1
      with step show ?thesis by simp
    next
      case 2
      from Cons.IH [OF dl inv(1,2) 2] inv(3) show ?thesis
        by simp
    qed
  qed
qed

lemma absolute_run_every_write:
  assumes "parse_params (initial_vars start) params = Inr v"
    and "mode v = USAGE_MODE_SET" and "\<not> percent v"
    and "Ioctl q (HIDIOCSUSAGE x) ok \<in> set (fst (main opts start db w params))"
  shows "x = brightness v"
proof -
  obtain evs out where m: "main opts start db w params = (evs, out)"
    by (cases "main opts start db w params")
  with assms(4) have f: "Ioctl q (HIDIOCSUSAGE x) ok \<in> set evs"
    by simp
  from main_trace [OF m disjI1, OF f] assms(1) obtain evs' where
    dl: "device_loop opts db w v (files v) = (evs', out)"
    and e: "evs = (if silent opts then [] else [Notice]) @ evs'"
    by auto
  from f e have "Ioctl q (HIDIOCSUSAGE x) ok \<in> set evs'"
    by (auto split: if_splits)
  from device_loop_set_every_write [OF dl assms(2,3) this] show ?thesis .
qed

subsection \<open>Relative changes\<close>

text \<open>
  What holds of relative changes. For a signed token that is not a percentage, run on a
  device of the database whose bounds are ordered, the value handed to \<open>HIDIOCSUSAGE\<close> is
  the value read from the device plus the signed value of the token, saturated into the
  bounds: the lower bound when the sum is below it, the upper bound when the sum is above
  it, the sum itself otherwise. This needs the sum to be a value of \<^verbatim>\<open>int\<close>: the program
  adds first and brings the sum into the bounds afterwards.
\<close>

lemma relative_token_saturates:
  assumes "\<not> number (Some p)" and "number (Some token)"
    and "first_char token = CHR ''+'' \<or> first_char token = CHR ''-''"
    and "\<not> isPercent (Some token)" and "in_int (atoi_value token)"
    and "w p = Some d"
    and "is_supported db (HIDIOCGDEVINFO d) = Some sd"
    and "brightness_min sd \<le> brightness_max sd"
    and "is_usb_monitor d" and "HIDIOCINITREPORT_ok d"
    and "HIDIOCGUSAGE_value d = Some current" and "HIDIOCGREPORT_ok d"
    and "in_int (current + atoi_value token)" and "HIDIOCSUSAGE_ok d"
  shows "written p (fst (main opts USAGE_MODE_GET db w [p, token])) =
           [if current + atoi_value token < brightness_min sd then brightness_min sd
            else if brightness_max sd < current + atoi_value token then brightness_max sd
            else current + atoi_value token]"
proof -
  let ?v = "\<lparr>mode = USAGE_MODE_SETREL, brightness = 0, amount = atoi_value token,
             percent = isPercent (Some token), files = [p], first_device = True\<rparr>"
  have off: "scale_percent (Some sd) ?v = Inr ?v"
    by (rule scale_percent_off) (simp add: assms(4) del: isPercent.simps)
  have "written p (fst (main opts USAGE_MODE_GET db w [p, token])) =
        written p (fst (process_device opts db w ?v p))"
    using main_one_device [OF assms(1,2,5)] assms(3) by simp
  also have "\<dots> = [min (brightness_max sd) (max (brightness_min sd) (current + amount ?v))]"
    by (rule process_device_setrel_written [where w = w and p = p,
          OF assms(6) _ assms(7,9,10) off assms(11,12) _ assms(14)])
      (simp_all add: assms(13))
  finally show ?thesis
    using assms(8) by (simp add: min_def max_def)
qed

lemma relative_token_saturates_examples:
  "written hiddev0 (fst (main quiet USAGE_MODE_GET init_device_database
      (two_devices (studio_display 59000 60000) usb_keyboard) [hiddev0, ''+100000''])) = [60000] \<and>
   written hiddev0 (fst (main quiet USAGE_MODE_GET init_device_database
      (two_devices (studio_display 500 400) usb_keyboard) [hiddev0, ''-100000''])) = [400]"
proof -
  define sd where "sd =
     \<lparr>product = 0x1114, vendor = 0x05ac,
      description = ''Apple Studio Display (2022, 27'' @ [CHR 0x22] @ '')'',
      brightness_min = 400, brightness_max = 60000\<rparr>"
  have p: "\<not> number (Some hiddev0)"
    by (simp add: hiddev0_def is_digit_def)
  have up: "number (Some ''+100000'')"
    "first_char ''+100000'' = CHR ''+'' \<or> first_char ''+100000'' = CHR ''-''"
    "\<not> isPercent (Some ''+100000'')"
    by (simp_all add: is_digit_def first_char_def)
  have down: "number (Some ''-100000'')"
    "first_char ''-100000'' = CHR ''+'' \<or> first_char ''-100000'' = CHR ''-''"
    "\<not> isPercent (Some ''-100000'')"
    by (simp_all add: is_digit_def first_char_def)
  have a: "atoi_value ''+100000'' = 100000" "atoi_value ''-100000'' = - 100000"
    by (simp_all add: atoi_value_def is_space_def is_digit_def)
  have r: "in_int (atoi_value ''+100000'')" "in_int (atoi_value ''-100000'')"
    "in_int (59000 + atoi_value ''+100000'')" "in_int (500 + atoi_value ''-100000'')"
    by (simp_all add: a in_int_def INT_MIN_def INT_MAX_def)
  have w: "two_devices (studio_display c b) usb_keyboard hiddev0 = Some (studio_display c b)"
    for c b
    by (simp add: two_devices_def)
  have s: "is_supported init_device_database (HIDIOCGDEVINFO (studio_display c b)) = Some sd"
    for c b
    by (simp add: eval_simps sd_def)
  have b: "brightness_min sd \<le> brightness_max sd"
    by (simp add: sd_def)
  have d: "is_usb_monitor (studio_display c b)" "HIDIOCINITREPORT_ok (studio_display c b)"
    "HIDIOCGUSAGE_value (studio_display c b) = Some c" "HIDIOCGREPORT_ok (studio_display c b)"
    "HIDIOCSUSAGE_ok (studio_display c b)"
    for c b
    by (simp_all add: eval_simps)
  have "written hiddev0 (fst (main quiet USAGE_MODE_GET init_device_database
      (two_devices (studio_display 59000 60000) usb_keyboard) [hiddev0, ''+100000''])) = [60000]"
    using relative_token_saturates
      [where w = "two_devices (studio_display 59000 60000) usb_keyboard" and p = hiddev0,
        OF p up r(1) w s b d(1,2,3,4) r(3) d(5)]
    by (simp add: a sd_def)
  moreover
  have "written hiddev0 (fst (main quiet USAGE_MODE_GET init_device_database
      (two_devices (studio_display 500 400) usb_keyboard) [hiddev0, ''-100000''])) = [400]"
    using relative_token_saturates
      [where w = "two_devices (studio_display 500 400) usb_keyboard" and p = hiddev0,
        OF p down r(2) w s b d(1,2,3,4) r(4) d(5)]
    by (simp add: a sd_def)
  ultimately show ?thesis
    by blast
qed

text \<open>
  The same in every run whose parameters set the relative mode without a percentage: each
  value handed to \<open>HIDIOCSUSAGE\<close> is, for the device at that path, the value read from it
  plus \<^verbatim>\<open>amount\<close>, brought into the bounds of its model.
\<close>

lemma report_transaction_setrel_every_write:
  assumes "report_transaction opts sel d v p = (evs, res)" and "mode v = USAGE_MODE_SETREL"
  shows "(Ioctl q (HIDIOCSUSAGE x) ok \<in> set evs \<longrightarrow>
            (\<exists>sd current. sel = Some sd \<and> HIDIOCGUSAGE_value d = Some current \<and>
               x = min (brightness_max sd) (max (brightness_min sd) (current + amount v)))) \<and>
         (\<forall>v'. res = Inr v' \<longrightarrow>
            mode v' = mode v \<and> percent v' = percent v \<and> amount v' = amount v)"
  using assms
  by (auto simp: report_transaction_def Let_def checked_def
      split: if_splits option.splits sum.splits)

lemma process_device_setrel_every_write:
  assumes "process_device opts db w v p = (evs, res)"
    and "mode v = USAGE_MODE_SETREL" and "\<not> percent v"
  shows "(Ioctl q (HIDIOCSUSAGE x) ok \<in> set evs \<longrightarrow>
            (\<exists>d sd current. w q = Some d \<and> is_supported db (HIDIOCGDEVINFO d) = Some sd \<and>
               HIDIOCGUSAGE_value d = Some current \<and>
               x = min (brightness_max sd) (max (brightness_min sd) (current + amount v)))) \<and>
         (\<forall>v'. res = Inr v' \<longrightarrow>
            mode v' = USAGE_MODE_SETREL \<and> \<not> percent v' \<and> amount v' = amount v)"
proof (cases "w p")
  case None
  with assms show ?thesis
    by (auto simp: process_device_def)
next
  case (Some d)
  show ?thesis
  proof (cases "(is_supported db (HIDIOCGDEVINFO d) = None \<and> \<not> force opts) \<or>
      \<not> is_usb_monitor d \<or> \<not> HIDIOCINITREPORT_ok d")
    case True
    with assms Some show ?thesis
      by (auto simp: process_device_def Let_def split: if_splits)
  next
    case False
    obtain evs' res' where
      rt: "report_transaction opts (is_supported db (HIDIOCGDEVINFO d)) d v p = (evs', res')"
      by (cases "report_transaction opts (is_supported db (HIDIOCGDEVINFO d)) d v p")
    note r = report_transaction_setrel_every_write [OF rt assms(2), of q x ok]
    from assms Some False rt r show ?thesis
      by (auto simp: process_device_def Let_def scale_percent_off split: if_splits sum.splits
          dest: report_transaction_paths)
  qed
qed

lemma device_loop_setrel_every_write:
  assumes "device_loop opts db w v ps = (evs, out)"
    and "mode v = USAGE_MODE_SETREL" and "\<not> percent v"
    and "Ioctl q (HIDIOCSUSAGE x) ok \<in> set evs"
  shows "\<exists>d sd current. w q = Some d \<and> is_supported db (HIDIOCGDEVINFO d) = Some sd \<and>
           HIDIOCGUSAGE_value d = Some current \<and>
           x = min (brightness_max sd) (max (brightness_min sd) (current + amount v))"
  using assms
proof (induction ps arbitrary: v evs out)
  case Nil
  then show ?case by simp
next
  case (Cons p ps)
  obtain evs1 res where pd: "process_device opts db w v p = (evs1, res)"
    by (cases "process_device opts db w v p")
  note step = process_device_setrel_every_write [OF pd Cons.prems(2,3), of q x ok]
  show ?case
  proof (cases res)
    case (Inl out1)
    with pd Cons.prems(1) have "evs = evs1"
      by simp
    with Cons.prems(4) step show ?thesis
      by simp
  next
    case (Inr v')
    obtain evs2 out2 where dl: "device_loop opts db w v' ps = (evs2, out2)"
      by (cases "device_loop opts db w v' ps")
    with pd Inr Cons.prems(1) have e: "evs = evs1 @ evs2"
      by simp
    from step Inr have inv: "mode v' = USAGE_MODE_SETREL" "\<not> percent v'"
      "amount v' = amount v"
      by simp_all
    from Cons.prems(4) e consider "Ioctl q (HIDIOCSUSAGE x) ok \<in> set evs1"
      | "Ioctl q (HIDIOCSUSAGE x) ok \<in> set evs2"
      by auto
    then show ?thesis
    proof cases
      case 1
      with step show ?thesis by simp
    next
      case 2
      from Cons.IH [OF dl inv(1,2) 2] inv(3) show ?thesis
        by simp
    qed
  qed
qed

lemma relative_run_every_write:
  assumes "parse_params (initial_vars start) params = Inr v"
    and "mode v = USAGE_MODE_SETREL" and "\<not> percent v"
    and "Ioctl q (HIDIOCSUSAGE x) ok \<in> set (fst (main opts start db w params))"
  shows "\<exists>d sd current. w q = Some d \<and> is_supported db (HIDIOCGDEVINFO d) = Some sd \<and>
           HIDIOCGUSAGE_value d = Some current \<and>
           x = min (brightness_max sd) (max (brightness_min sd) (current + amount v))"
proof -
  obtain evs out where m: "main opts start db w params = (evs, out)"
    by (cases "main opts start db w params")
  with assms(4) have f: "Ioctl q (HIDIOCSUSAGE x) ok \<in> set evs"
    by simp
  from main_trace [OF m disjI1, OF f] assms(1) obtain evs' where
    dl: "device_loop opts db w v (files v) = (evs', out)"
    and e: "evs = (if silent opts then [] else [Notice]) @ evs'"
    by auto
  from f e have "Ioctl q (HIDIOCSUSAGE x) ok \<in> set evs'"
    by (auto split: if_splits)
  from device_loop_setrel_every_write [OF dl assms(2,3) this] show ?thesis .
qed

text \<open>
  C5. Every relative change is to be written saturated into the bounds, never wrapped.
  \<^verbatim>\<open>main\<close> computes \<^verbatim>\<open>usage_ref.value + amount\<close> as an \<^verbatim>\<open>int\<close> and applies
  \<^verbatim>\<open>max\<close> and \<^verbatim>\<open>min\<close> to the result, so the sum is formed before anything is brought
  into the bounds. The token \<open>+2147483647\<close> is a value of \<^verbatim>\<open>int\<close>, and on a Studio
  Display that reports 30000 the claim has 60000 written. The sum 30000 + 2147483647 is
  no value of \<^verbatim>\<open>int\<close>: the addition overflows, the run is undefined from there on, and
  the upper bound is not written (two's complement arithmetic gives a negative sum, which
  the clamp turns into the lower bound 400).
\<close>

theorem relative_sum_overflows_before_clamp:
  "number (Some ''+2147483647'') \<and> \<not> isPercent (Some ''+2147483647'') \<and>
   atoi ''+2147483647'' = Inr 2147483647 \<and>
   \<not> in_int (30000 + 2147483647) \<and>
   main quiet USAGE_MODE_GET init_device_database
     (two_devices (studio_display 30000 30000) usb_keyboard) [hiddev0, ''+2147483647''] =
     ([Open hiddev0 O_RDWR, Ioctl hiddev0 HIDIOCINITREPORT True,
       Ioctl hiddev0 HIDIOCGUSAGE True, Ioctl hiddev0 HIDIOCGREPORT True],
      Undefined IntegerOverflow) \<and>
   written hiddev0 (fst (main quiet USAGE_MODE_GET init_device_database
     (two_devices (studio_display 30000 30000) usb_keyboard) [hiddev0, ''+2147483647''])) = []"
  by (simp add: eval_simps)

subsection \<open>Percentages\<close>

lemma scale_percent_absolute:
  assumes "percent v" and "amount v = 0"
    and "in_int (brightness_max sd - brightness_min sd)"
    and "in_int (min (max (brightness v) 0) 100 * (brightness_max sd - brightness_min sd))"
    and "in_int (c_div (min (max (brightness v) 0) 100 * (brightness_max sd - brightness_min sd)) 100
           + brightness_min sd)"
  shows "scale_percent (Some sd) v =
           Inr (v\<lparr>brightness :=
                  c_div (min (max (brightness v) 0) 100 * (brightness_max sd - brightness_min sd)) 100
                  + brightness_min sd\<rparr>)"
  using assms by (simp add: scale_percent_def checked_def)

lemma scale_percent_relative:
  assumes "percent v" and "amount v \<noteq> 0"
    and "in_int (brightness_max sd - brightness_min sd)"
    and "in_int (amount v * (brightness_max sd - brightness_min sd))"
  shows "scale_percent (Some sd) v =
           Inr (v\<lparr>amount := c_div (amount v * (brightness_max sd - brightness_min sd)) 100\<rparr>)"
  using assms by (simp add: scale_percent_def checked_def)

text \<open>
  What holds of percentages: on the first device of a run with one numeric token, an
  absolute percentage writes the lower bound plus the percentage (limited to 0..100) of
  the span, the quotient truncated.
\<close>

lemma absolute_percentage_first_device:
  assumes "\<not> number (Some p)" and "number (Some token)"
    and "first_char token \<noteq> CHR ''+''" and "first_char token \<noteq> CHR ''-''"
    and "isPercent (Some token)" and "in_int (atoi_value token)"
    and "w p = Some d"
    and "is_supported db (HIDIOCGDEVINFO d) = Some sd"
    and "is_usb_monitor d" and "HIDIOCINITREPORT_ok d" and "HIDIOCSUSAGE_ok d"
    and "in_int (brightness_max sd - brightness_min sd)"
    and "in_int (min (max (atoi_value token) 0) 100 * (brightness_max sd - brightness_min sd))"
    and "in_int (c_div (min (max (atoi_value token) 0) 100 *
                        (brightness_max sd - brightness_min sd)) 100 + brightness_min sd)"
  shows "written p (fst (main opts USAGE_MODE_GET db w [p, token])) =
           [brightness_min sd +
            c_div (min (max (atoi_value token) 0) 100 * (brightness_max sd - brightness_min sd)) 100]"
proof -
  let ?v = "\<lparr>mode = USAGE_MODE_SET, brightness = atoi_value token, amount = 0,
             percent = isPercent (Some token), files = [p], first_device = True\<rparr>"
  let ?b = "c_div (min (max (atoi_value token) 0) 100 * (brightness_max sd - brightness_min sd)) 100
            + brightness_min sd"
  have sc: "scale_percent (is_supported db (HIDIOCGDEVINFO d)) ?v = Inr (?v\<lparr>brightness := ?b\<rparr>)"
    unfolding assms(8)
    using scale_percent_absolute [where v = ?v and sd = sd] assms(5,12,13,14)
    by (simp del: isPercent.simps)
  have "written p (fst (main opts USAGE_MODE_GET db w [p, token])) =
        written p (fst (process_device opts db w ?v p))"
    using main_one_device [OF assms(1,2,6)] assms(3,4) by simp
  also have "\<dots> = [brightness (?v\<lparr>brightness := ?b\<rparr>)]"
    by (rule process_device_set_written [where w = w and p = p,
          OF assms(7) _ _ assms(9,10) sc assms(11)]) (simp_all add: assms(8))
  finally show ?thesis
    by simp
qed

text \<open>
  And a relative percentage changes the first device by the percentage of the span, the
  quotient truncated towards zero, before the sum is brought into the bounds.
\<close>

lemma relative_percentage_first_device:
  assumes "\<not> number (Some p)" and "number (Some token)"
    and "first_char token = CHR ''+'' \<or> first_char token = CHR ''-''"
    and "isPercent (Some token)" and "in_int (atoi_value token)" and "atoi_value token \<noteq> 0"
    and "w p = Some d"
    and "is_supported db (HIDIOCGDEVINFO d) = Some sd"
    and "is_usb_monitor d" and "HIDIOCINITREPORT_ok d"
    and "HIDIOCGUSAGE_value d = Some current" and "HIDIOCGREPORT_ok d" and "HIDIOCSUSAGE_ok d"
    and "in_int (brightness_max sd - brightness_min sd)"
    and "in_int (atoi_value token * (brightness_max sd - brightness_min sd))"
    and "in_int (current +
           c_div (atoi_value token * (brightness_max sd - brightness_min sd)) 100)"
  shows "written p (fst (main opts USAGE_MODE_GET db w [p, token])) =
           [min (brightness_max sd) (max (brightness_min sd)
              (current + c_div (atoi_value token * (brightness_max sd - brightness_min sd)) 100))]"
proof -
  let ?v = "\<lparr>mode = USAGE_MODE_SETREL, brightness = 0, amount = atoi_value token,
             percent = isPercent (Some token), files = [p], first_device = True\<rparr>"
  let ?a = "c_div (atoi_value token * (brightness_max sd - brightness_min sd)) 100"
  have sc: "scale_percent (Some sd) ?v = Inr (?v\<lparr>amount := ?a\<rparr>)"
    using scale_percent_relative [where v = ?v and sd = sd] assms(4,6,14,15)
    by (simp del: isPercent.simps)
  have "written p (fst (main opts USAGE_MODE_GET db w [p, token])) =
        written p (fst (process_device opts db w ?v p))"
    using main_one_device [OF assms(1,2,5)] assms(3) by simp
  also have "\<dots> = [min (brightness_max sd) (max (brightness_min sd)
      (current + amount (?v\<lparr>amount := ?a\<rparr>)))]"
    by (rule process_device_setrel_written [where w = w and p = p,
          OF assms(7) _ assms(8,9,10) sc assms(11,12) _ assms(13)])
      (simp_all add: assms(16))
  finally show ?thesis
    by simp
qed

text \<open>
  C4. A percentage is to give, in absolute mode, the lower bound plus the percentage of
  the span (50% on a Studio Display: 30200), and in relative mode a change by the
  percentage of the span. \<^verbatim>\<open>main\<close> computes this inside its loop over the devices and
  stores the result back into \<^verbatim>\<open>brightness\<close> and \<^verbatim>\<open>amount\<close>, so the next device starts
  from the scaled value instead of the percentage. With two Studio Displays and the token
  \<open>50%\<close>, the first is set to 30200 and the second to 60000; with \<open>+1%\<close> and both at
  30000, the first is set to 30596 and the second, for which the change has become
  596 * 59600 / 100, to the upper bound. The block also chooses between the two formulas
  by \<^verbatim>\<open>amount == 0\<close> and not by the mode: after the parameters \<open>+5\<close> and \<open>50%\<close> the mode
  is absolute, \<^verbatim>\<open>amount\<close> is still 5, and the display is set to 50.
\<close>

theorem percentage_rescaled_for_each_device:
  "written hiddev0 (fst (main quiet USAGE_MODE_GET init_device_database
      (two_devices (studio_display 30000 30000) (studio_display 30000 30000))
      [hiddev0, hiddev1, ''50%''])) = [30200] \<and>
   written hiddev1 (fst (main quiet USAGE_MODE_GET init_device_database
      (two_devices (studio_display 30000 30000) (studio_display 30000 30000))
      [hiddev0, hiddev1, ''50%''])) = [60000] \<and>
   written hiddev0 (fst (main quiet USAGE_MODE_GET init_device_database
      (two_devices (studio_display 30000 30596) (studio_display 30000 30596))
      [hiddev0, hiddev1, ''+1%''])) = [30596] \<and>
   written hiddev1 (fst (main quiet USAGE_MODE_GET init_device_database
      (two_devices (studio_display 30000 30596) (studio_display 30000 30596))
      [hiddev0, hiddev1, ''+1%''])) = [60000] \<and>
   written hiddev0 (fst (main quiet USAGE_MODE_GET init_device_database
      (two_devices (studio_display 30000 30000) usb_keyboard)
      [''+5'', hiddev0, ''50%''])) = [50]"
  by (simp add: eval_simps)
section \<open>Exit status\<close>

text \<open>
  C6. The exit status of a run is 1 when the parameters hold no device path and when
  \<open>HIDIOCINITREPORT\<close> fails; it is 2 when a device is reported unsupported and the
  force flag is not set, and when a get-usage or set-usage request fails; it is 3 when a
  get-report or set-report request fails.
\<close>

theorem exit_status:
  "(parse_params (initial_vars start) params = Inr v \<and> files v = [] \<longrightarrow>
      snd (main opts start db w params) = Exit 1) \<and>
   (Ioctl p HIDIOCINITREPORT False \<in> set (fst (main opts start db w params)) \<longrightarrow>
      snd (main opts start db w params) = Exit 1) \<and>
   (Cerr ''Unsupported device:'' \<in> set (fst (main opts start db w params)) \<and> \<not> force opts \<longrightarrow>
      snd (main opts start db w params) = Exit 2) \<and>
   (Ioctl p (HIDIOCSUSAGE x) False \<in> set (fst (main opts start db w params)) \<or>
    Ioctl p HIDIOCGUSAGE False \<in> set (fst (main opts start db w params)) \<longrightarrow>
      snd (main opts start db w params) = Exit 2) \<and>
   (Ioctl p HIDIOCSREPORT False \<in> set (fst (main opts start db w params)) \<or>
    Ioctl p HIDIOCGREPORT False \<in> set (fst (main opts start db w params)) \<longrightarrow>
      snd (main opts start db w params) = Exit 3)"
proof -
  obtain evs out where m: "main opts start db w params = (evs, out)"
    by (cases "main opts start db w params")
  have nofiles: "parse_params (initial_vars start) params = Inr v \<and> files v = [] \<longrightarrow> out = Exit 1"
    using m by (auto simp: main_def)
  have failed: "out = Exit (case r of HIDIOCINITREPORT \<Rightarrow> 1 | HIDIOCSUSAGE x \<Rightarrow> 2
                     | HIDIOCSREPORT \<Rightarrow> 3 | HIDIOCGUSAGE \<Rightarrow> 2 | HIDIOCGREPORT \<Rightarrow> 3)"
    if "Ioctl p r False \<in> set evs" for r
  proof -
    from main_trace [OF m] that obtain v' evs' where
      dl: "device_loop opts db w v' (files v') = (evs', out)"
      and e: "evs = (if silent opts then [] else [Notice]) @ evs'"
      by blast
    from that e have "Ioctl p r False \<in> set evs'"
      by (auto split: if_splits)
    from device_loop_failed [OF dl this] show ?thesis
      by simp
  qed
  have unsupported: "out = Exit 2"
    if "Cerr ''Unsupported device:'' \<in> set evs" and "\<not> force opts"
  proof -
    from main_trace [OF m] that(1) obtain v' evs' where
      dl: "device_loop opts db w v' (files v') = (evs', out)"
      and e: "evs = (if silent opts then [] else [Notice]) @ evs'"
      by blast
    from that(1) e have "Cerr ''Unsupported device:'' \<in> set evs'"
      by (auto split: if_splits)
    from device_loop_unsupported [OF dl this that(2)] show ?thesis .
  qed
  show ?thesis
    using nofiles unsupported failed [of HIDIOCINITREPORT] failed [of "HIDIOCSUSAGE x"]
      failed [of HIDIOCGUSAGE] failed [of HIDIOCSREPORT] failed [of HIDIOCGREPORT]
    by (auto simp: m)
qed

theorem exit_status_witness:
  "snd (main quiet USAGE_MODE_GET init_device_database
          (two_devices (studio_display 30000 30000) usb_keyboard) [''20000'']) = Exit 1 \<and>
   snd (main quiet USAGE_MODE_GET init_device_database
          (two_devices ((studio_display 30000 30000)\<lparr>HIDIOCINITREPORT_ok := False\<rparr>) usb_keyboard)
          [hiddev0]) = Exit 1 \<and>
   snd (main quiet USAGE_MODE_GET init_device_database
          (two_devices (studio_display 30000 30000) usb_keyboard) [hiddev1, hiddev0]) = Exit 2 \<and>
   snd (main quiet USAGE_MODE_GET init_device_database
          (two_devices ((studio_display 30000 30000)\<lparr>HIDIOCSUSAGE_ok := False\<rparr>) usb_keyboard)
          [hiddev0, ''20000'']) = Exit 2 \<and>
   snd (main quiet USAGE_MODE_GET init_device_database
          (two_devices ((studio_display 30000 30000)\<lparr>HIDIOCGREPORT_ok := False\<rparr>) usb_keyboard)
          [hiddev0]) = Exit 3"
proof -
  define v0 where "v0 =
      \<lparr>mode = USAGE_MODE_SET, brightness = 20000, amount = 0, percent = False, files = [],
       first_device = True\<rparr>"
  have nofiles: "parse_params (initial_vars USAGE_MODE_GET) [''20000''] = Inr v0"
    by (simp add: v0_def eval_simps)
  have empty: "files v0 = []"
    by (simp add: v0_def)
  have init: "Ioctl hiddev0 HIDIOCINITREPORT False \<in>
      set (fst (main quiet USAGE_MODE_GET init_device_database
          (two_devices ((studio_display 30000 30000)\<lparr>HIDIOCINITREPORT_ok := False\<rparr>) usb_keyboard)
          [hiddev0]))"
    by (simp add: eval_simps)
  have unsupported: "Cerr ''Unsupported device:'' \<in>
      set (fst (main quiet USAGE_MODE_GET init_device_database
          (two_devices (studio_display 30000 30000) usb_keyboard) [hiddev1, hiddev0]))"
    by (simp add: eval_simps)
  have noforce: "\<not> force quiet"
    by (simp add: quiet_def)
  have usage: "Ioctl hiddev0 (HIDIOCSUSAGE 20000) False \<in>
      set (fst (main quiet USAGE_MODE_GET init_device_database
          (two_devices ((studio_display 30000 30000)\<lparr>HIDIOCSUSAGE_ok := False\<rparr>) usb_keyboard)
          [hiddev0, ''20000'']))"
    by (simp add: eval_simps)
  have report: "Ioctl hiddev0 HIDIOCGREPORT False \<in>
      set (fst (main quiet USAGE_MODE_GET init_device_database
          (two_devices ((studio_display 30000 30000)\<lparr>HIDIOCGREPORT_ok := False\<rparr>) usb_keyboard)
          [hiddev0]))"
    by (simp add: eval_simps)
  have c1: "snd (main quiet USAGE_MODE_GET init_device_database
          (two_devices (studio_display 30000 30000) usb_keyboard) [''20000'']) = Exit 1"
    using exit_status [where start = USAGE_MODE_GET and params = "[''20000'']" and opts = quiet
        and db = init_device_database
        and w = "two_devices (studio_display 30000 30000) usb_keyboard" and v = v0]
      nofiles empty
    by blast
  have c2: "snd (main quiet USAGE_MODE_GET init_device_database
          (two_devices ((studio_display 30000 30000)\<lparr>HIDIOCINITREPORT_ok := False\<rparr>) usb_keyboard)
          [hiddev0]) = Exit 1"
    using exit_status [where p = hiddev0 and start = USAGE_MODE_GET and params = "[hiddev0]"
        and opts = quiet and db = init_device_database
        and w = "two_devices ((studio_display 30000 30000)\<lparr>HIDIOCINITREPORT_ok := False\<rparr>)
                   usb_keyboard"] init
    by blast
  have c3: "snd (main quiet USAGE_MODE_GET init_device_database
          (two_devices (studio_display 30000 30000) usb_keyboard) [hiddev1, hiddev0]) = Exit 2"
    using exit_status [where start = USAGE_MODE_GET and params = "[hiddev1, hiddev0]"
        and opts = quiet and db = init_device_database
        and w = "two_devices (studio_display 30000 30000) usb_keyboard"] unsupported noforce
    by blast
  have c4: "snd (main quiet USAGE_MODE_GET init_device_database
          (two_devices ((studio_display 30000 30000)\<lparr>HIDIOCSUSAGE_ok := False\<rparr>) usb_keyboard)
          [hiddev0, ''20000'']) = Exit 2"
    using exit_status [where p = hiddev0 and x = 20000 and start = USAGE_MODE_GET
        and params = "[hiddev0, ''20000'']" and opts = quiet and db = init_device_database
        and w = "two_devices ((studio_display 30000 30000)\<lparr>HIDIOCSUSAGE_ok := False\<rparr>)
                   usb_keyboard"] usage
    by blast
  have c5: "snd (main quiet USAGE_MODE_GET init_device_database
          (two_devices ((studio_display 30000 30000)\<lparr>HIDIOCGREPORT_ok := False\<rparr>) usb_keyboard)
          [hiddev0]) = Exit 3"
    using exit_status [where p = hiddev0 and start = USAGE_MODE_GET and params = "[hiddev0]"
        and opts = quiet and db = init_device_database
        and w = "two_devices ((studio_display 30000 30000)\<lparr>HIDIOCGREPORT_ok := False\<rparr>)
                   usb_keyboard"] report
    by blast
  from c1 c2 c3 c4 c5 show ?thesis
    by blast
qed
section \<open>Errors and the device handle\<close>




text \<open>
  C8. The handle of a device is to be closed before the next device path is processed,
  on every path through the loop body. Only the path through the end of the body reaches
  \<^verbatim>\<open>close ( fd )\<close>: the \<^verbatim>\<open>continue\<close> of detect mode and the \<^verbatim>\<open>continue\<close> after
  \<open>This device is not a USB monitor!\<close> skip it. In detect mode on two displays no handle
  is closed at all; in get mode with the force flag, the keyboard at the first path is
  left open while the display at the second path is opened, read and closed.
\<close>

theorem handle_left_open:
  "fst (main quiet USAGE_MODE_DETECT init_device_database
      (two_devices (studio_display 30000 30000) (studio_display 30000 30000))
      [hiddev0, hiddev1]) =
     [Open hiddev0 O_RDONLY, Detected hiddev0 True, Open hiddev1 O_RDONLY, Detected hiddev1 True] \<and>
   fst (main (quiet\<lparr>force := True\<rparr>) USAGE_MODE_GET init_device_database
      (two_devices usb_keyboard (studio_display 30000 30000))
      [hiddev0, hiddev1]) =
     [Open hiddev0 O_RDONLY, Cerr ''Unsupported device:'', Cerr ''This device is not a USB monitor!'',
      Open hiddev1 O_RDONLY, Ioctl hiddev1 HIDIOCINITREPORT True,
      Ioctl hiddev1 HIDIOCGUSAGE True, Ioctl hiddev1 HIDIOCGREPORT True,
      Brightness (Some hiddev1) 30000, Close hiddev1]"
  by (simp add: eval_simps)

end
